theory Spec2Isabelle
  imports Complex_Main
begin

section \<open>The career-choice simulation of \<open>exam.py\<close>\<close>

text \<open>
  This theory embeds class \<open>CareerChoice\<close> and the aggregators \<open>count\<close> and
  \<open>count2\<close> of \<open>src/exam project/exam.py\<close>: the constructor, \<open>v1\<close>, \<open>v2\<close>,
  \<open>v3\<close>, \<open>career\<close>, \<open>simulate\<close>, \<open>career_alt\<close> and \<open>sort_career\<close>. The
  methods \<open>epsdraw\<close> and \<open>utility\<close>, which the simulation does not call, class
  \<open>ProductionEconomy\<close> and the plotting functions are left out.

  Conventions of the embedding.
  \<^item> Python integers are modelled by \<open>int\<close>; loop indices and dictionary keys,
    which the code only ever takes from \<open>range\<close>, are naturals.
  \<^item> In the simulation the floating-point numbers are modelled by the reals: the
    utilities are sums of draws, and the statements about them are about the choices
    and the formulas, not about rounding. The reals have one zero; it stands for the
    integer 0 and the float \<open>+0.0\<close>. The float \<open>-0.0\<close>, which compares equal to 0 and
    which \<open>numpy\<close> rejects as a scale because its sign bit is set, has no counterpart in
    the model, and no statement below is about it.
  \<^item> In the aggregators \<open>count\<close> and \<open>count2\<close> the division is the one of the
    code: the quotient of two integers rounded to the nearest double.
  \<^item> The process-wide generator of \<open>numpy.random\<close> is modelled by the stream of
    standard-normal variates it is going to deliver: the state \<open>g\<close> is a function
    from positions to variates, a draw of \<open>size\<close> values reads positions
    \<open>0..<size\<close> and leaves the stream advanced by \<open>size\<close>. Nothing is assumed
    about the values of the stream.
  \<^item> Every exception the code can raise is a value of type \<open>error\<close>; a function
    that can raise returns \<open>error + result\<close>.
\<close>

subsection \<open>Errors, parameters, the random source\<close>

datatype error = KeyError | IndexError | ValueError | ZeroDivisionError

text \<open>The namespace \<open>par\<close> built by \<open>CareerChoice.__init__\<close>.\<close>

record par =
  J :: int
  N :: int
  K :: int
  F :: "int list"
  sigma :: real
  v :: "real list"
  c :: real

type_synonym rng = "nat \<Rightarrow> real"

definition advance :: "nat \<Rightarrow> rng \<Rightarrow> rng" where
  "advance n g = (\<lambda>k. g (k + n))"

text \<open>
  \<open>np.random.normal(loc, scale, size)\<close>: numpy rejects a negative scale with
  \<open>ValueError\<close>; otherwise every value is \<open>loc + scale * z\<close> for the next
  standard-normal variate \<open>z\<close>.
\<close>

definition normal :: "real \<Rightarrow> real \<Rightarrow> nat \<Rightarrow> rng \<Rightarrow> error + (real list \<times> rng)" where
  "normal loc scale sz g =
     (if scale < 0 then Inl ValueError
      else Inr (map (\<lambda>k. loc + scale * g k) [0..<sz], advance sz g))"

text \<open>
  \<open>CareerChoice.__init__(seed)\<close>. The object holds \<open>par\<close> and \<open>seed\<close>. When a
  seed is given, \<open>np.random.seed(seed)\<close> replaces the state of the global generator;
  the seeding function belongs to numpy and is the parameter \<open>np_seed\<close> (it may
  reject a seed).
\<close>

record CareerChoice =
  par_of :: par
  seed :: "int option"

definition default_par :: par where
  "default_par =
     \<lparr>J = 3, N = 10, K = 10000, F = map int [1..<nat (10 + 1)], sigma = 2,
      v = [1, 2, 3], c = 1\<rparr>"

definition init :: "(int \<Rightarrow> error + rng) \<Rightarrow> int option \<Rightarrow> rng \<Rightarrow> error + (CareerChoice \<times> rng)" where
  "init np_seed sd g =
     (case sd of
        Some s \<Rightarrow>
          (case np_seed s of
             Inl e \<Rightarrow> Inl e
           | Inr g' \<Rightarrow> Inr (\<lparr>par_of = default_par, seed = sd\<rparr>, g'))
      | None \<Rightarrow> Inr (\<lparr>par_of = default_par, seed = sd\<rparr>, g))"

subsection \<open>Expected utilities: \<open>v1\<close>, \<open>v2\<close>, \<open>v3\<close>\<close>

text \<open>
  The three methods are the same loop
  \<^verbatim>\<open>
    for i in range(1,par.N+1):
        eps = np.random.normal(loc=0, scale=par.sigma, size=i)
        eu = 1/i*(b*i + eps.sum())
        EU.append(eu)
  \<close>
  with the literal \<open>b\<close> equal to 1, 2 and 3. \<open>EU_loop b s is\<close> runs the body for
  the values \<open>is\<close> of \<open>i\<close> in order; the list it returns is \<open>EU\<close>.
\<close>

fun EU_loop :: "real \<Rightarrow> real \<Rightarrow> nat list \<Rightarrow> rng \<Rightarrow> error + (real list \<times> rng)" where
  "EU_loop b s [] g = Inr ([], g)"
| "EU_loop b s (i # is) g =
     (case normal 0 s i g of
        Inl e \<Rightarrow> Inl e
      | Inr (eps, g') \<Rightarrow>
          (case EU_loop b s is g' of
             Inl e \<Rightarrow> Inl e
           | Inr (EU, g'') \<Rightarrow> Inr ((1 / real i * (b * real i + sum_list eps)) # EU, g'')))"

definition v1 :: "par \<Rightarrow> rng \<Rightarrow> error + (real list \<times> rng)" where
  "v1 p g = EU_loop 1 (sigma p) [1..<nat (N p + 1)] g"

definition v2 :: "par \<Rightarrow> rng \<Rightarrow> error + (real list \<times> rng)" where
  "v2 p g = EU_loop 2 (sigma p) [1..<nat (N p + 1)] g"

definition v3 :: "par \<Rightarrow> rng \<Rightarrow> error + (real list \<times> rng)" where
  "v3 p g = EU_loop 3 (sigma p) [1..<nat (N p + 1)] g"

subsection \<open>Sequencing, lists and dictionaries\<close>

text \<open>An exception aborts everything that follows.\<close>

definition bind_err :: "error + 'a \<Rightarrow> ('a \<Rightarrow> error + 'b) \<Rightarrow> error + 'b" where
  "bind_err m f = (case m of Inl e \<Rightarrow> Inl e | Inr x \<Rightarrow> f x)"

text \<open>\<open>xs[i]\<close> for an index \<open>i \<ge> 0\<close>.\<close>

definition getitem :: "'a list \<Rightarrow> nat \<Rightarrow> error + 'a" where
  "getitem xs i = (if i < length xs then Inr (xs ! i) else Inl IndexError)"

text \<open>
  The dictionaries of the code map a type index to a list. \<open>dict_append d k mx\<close> is
  \<open>d[k].append(x)\<close>: the lookup \<open>d[k]\<close> comes first, then the evaluation \<open>mx\<close>
  of the argument, then the append. \<open>get2 d k n\<close> is \<open>d[k][n]\<close>.
\<close>

type_synonym 'a dict = "nat \<rightharpoonup> 'a list"

definition dict_get :: "'a dict \<Rightarrow> nat \<Rightarrow> error + 'a list" where
  "dict_get d k = (case d k of None \<Rightarrow> Inl KeyError | Some l \<Rightarrow> Inr l)"

definition dict_append :: "'a dict \<Rightarrow> nat \<Rightarrow> error + 'a \<Rightarrow> error + 'a dict" where
  "dict_append d k mx =
     bind_err (dict_get d k) (\<lambda>l. bind_err mx (\<lambda>x. Inr (d(k \<mapsto> l @ [x]))))"

definition get2 :: "'a dict \<Rightarrow> nat \<Rightarrow> nat \<Rightarrow> error + 'a" where
  "get2 d k n = bind_err (dict_get d k) (\<lambda>l. getitem l n)"

text \<open>The literal \<open>{1: [], 2: [], ..., 10: []}\<close>.\<close>

definition dict10 :: "'a dict" where
  "dict10 = [1 \<mapsto> [], 2 \<mapsto> [], 3 \<mapsto> [], 4 \<mapsto> [], 5 \<mapsto> [], 6 \<mapsto> [], 7 \<mapsto> [],
             8 \<mapsto> [], 9 \<mapsto> [], 10 \<mapsto> []]"

text \<open>\<open>np.max\<close> of a list of three numbers.\<close>

definition np_max3 :: "real \<Rightarrow> real \<Rightarrow> real \<Rightarrow> real" where
  "np_max3 x y z = max x (max y z)"

subsection \<open>The first choice: \<open>career\<close>\<close>

text \<open>
  The body of the first loop of \<open>career\<close> is
  \<^verbatim>\<open>
    choice = np.max([EUv1[i], EUv2[i], EUv3[i]])
    if choice == EUv1[i]:
        career.append(1)
        EV.append(EUv1[i])
        noise = np.random.normal(loc=0, scale=par.sigma, size=1)
        noiseterm.append(noise[0])
    elif choice == EUv2[i]:
        (the same with 2 and EUv2[i])
    else:
        (the same with 3 and EUv3[i])
  \<close>
  \<open>first_choice\<close> is the chain of comparisons with what the taken branch appends to
  \<open>career\<close> and \<open>EV\<close>; the draw of the noise term, the same text in the three
  branches, follows it in \<open>career_loop1\<close>. The lists \<open>career\<close>, \<open>EV\<close> and
  \<open>noiseterm\<close> grow at the end in the code; here the element of the current \<open>i\<close>
  is put in front of the elements of the later ones.
\<close>

definition first_choice :: "real \<Rightarrow> real \<Rightarrow> real \<Rightarrow> int \<times> real" where
  "first_choice e1 e2 e3 =
     (let choice = np_max3 e1 e2 e3
      in if choice = e1 then (1, e1)
         else if choice = e2 then (2, e2)
         else (3, e3))"

fun career_loop1 ::
  "real \<Rightarrow> real list \<Rightarrow> real list \<Rightarrow> real list \<Rightarrow> nat list \<Rightarrow> rng
     \<Rightarrow> error + ((int list \<times> real list \<times> real list) \<times> rng)" where
  "career_loop1 s EUv1 EUv2 EUv3 [] g = Inr (([], [], []), g)"
| "career_loop1 s EUv1 EUv2 EUv3 (i # is) g =
     bind_err (getitem EUv1 i) (\<lambda>e1.
     bind_err (getitem EUv2 i) (\<lambda>e2.
     bind_err (getitem EUv3 i) (\<lambda>e3.
       case first_choice e1 e2 e3 of (t, ev) \<Rightarrow>
         bind_err (normal 0 s 1 g) (\<lambda>(noise, g').
         bind_err (getitem noise 0) (\<lambda>noise0.
         bind_err (career_loop1 s EUv1 EUv2 EUv3 is g') (\<lambda>((career, EV, noiseterm), g'').
           Inr ((t # career, ev # EV, noise0 # noiseterm), g'')))))))"

text \<open>The second loop: \<open>RV.append(career[i] + noiseterm[i])\<close>.\<close>

fun career_loop2 :: "int list \<Rightarrow> real list \<Rightarrow> nat list \<Rightarrow> error + real list" where
  "career_loop2 career noiseterm [] = Inr []"
| "career_loop2 career noiseterm (i # is) =
     bind_err (getitem career i) (\<lambda>t.
     bind_err (getitem noiseterm i) (\<lambda>x.
     bind_err (career_loop2 career noiseterm is) (\<lambda>RV.
       Inr ((real_of_int t + x) # RV))))"

definition career :: "par \<Rightarrow> rng \<Rightarrow> error + ((int list \<times> real list \<times> real list) \<times> rng)" where
  "career p g =
     bind_err (v1 p g) (\<lambda>(EUv1, g1).
     bind_err (v2 p g1) (\<lambda>(EUv2, g2).
     bind_err (v3 p g2) (\<lambda>(EUv3, g3).
     bind_err (career_loop1 (sigma p) EUv1 EUv2 EUv3 [0..<nat (N p)] g3)
       (\<lambda>((career, EV, noiseterm), g4).
     bind_err (career_loop2 career noiseterm [0..<nat (N p)]) (\<lambda>RV.
       Inr ((career, EV, RV), g4))))))"

subsection \<open>The simulation of the first choice: \<open>simulate\<close>\<close>

type_synonym sim_state = "int dict \<times> real dict \<times> real dict"

text \<open>
  The inner loop \<open>n = 0; while n <= par.K: ...; n += 1\<close> for the type with index
  \<open>i\<close>, started at the value \<open>n\<close> of the counter.
\<close>

function simulate_while ::
  "par \<Rightarrow> nat \<Rightarrow> int \<Rightarrow> sim_state \<times> rng \<Rightarrow> error + (sim_state \<times> rng)" where
  "simulate_while p i n ((careerdict, EVdict, RVdict), g) =
     (if n \<le> K p then
        bind_err (career p g) (\<lambda>((career, EV, RV), g').
        bind_err (dict_append careerdict (i + 1) (getitem career i)) (\<lambda>careerdict'.
        bind_err (dict_append EVdict (i + 1) (getitem EV i)) (\<lambda>EVdict'.
        bind_err (dict_append RVdict (i + 1) (getitem RV i)) (\<lambda>RVdict'.
          simulate_while p i (n + 1) ((careerdict', EVdict', RVdict'), g')))))
      else Inr ((careerdict, EVdict, RVdict), g))"
  by pat_completeness auto
termination
  by (relation "measure (\<lambda>(p, i, n, st). nat (K p + 1 - n))") auto

text \<open>The outer loop \<open>for i in range(0,par.N)\<close>.\<close>

fun simulate_for :: "par \<Rightarrow> nat list \<Rightarrow> sim_state \<times> rng \<Rightarrow> error + (sim_state \<times> rng)" where
  "simulate_for p [] st = Inr st"
| "simulate_for p (i # is) st = bind_err (simulate_while p i 0 st) (simulate_for p is)"

definition simulate :: "par \<Rightarrow> rng \<Rightarrow> error + (sim_state \<times> rng)" where
  "simulate p g = simulate_for p [0..<nat (N p)] ((dict10, dict10, dict10), g)"

subsection \<open>The second year: \<open>career_alt\<close>\<close>

type_synonym alt_state = "int dict \<times> int dict \<times> real dict \<times> real dict"

text \<open>
  The state of the loops is \<open>(switchdict, careerdict_alt, EVdict_alt, RVdict_alt)\<close>
  and the generator. The body has one block for each value of the first choice; the
  three blocks have the same text up to the track numbers and the two expected
  utilities they read. \<open>alt_branch\<close> is that block for the first choice \<open>t0\<close> and the
  alternatives \<open>ta\<close> (expected utility \<open>EUa\<close>) and \<open>tb\<close> (expected utility \<open>EUb\<close>),
  in the order of the code:
  \<^verbatim>\<open>
    c = np.max([RVdict[i+1][n],(EUa[i]-par.c), (EUb[i]-par.c)])
    if c == RVdict[i+1][n]:
        careerdict_alt[i+1].append(t0)
        EVdict_alt[i+1].append(RVdict[i+1][n])
        switchdict[i+1].append(0)
        RVdict_alt[i+1].append(RVdict[i+1][n])
    elif c == (EUa[i]-par.c):
        careerdict_alt[i+1].append(ta)
        EVdict_alt[i+1].append(EUa[i]-par.c)
        switchdict[i+1].append(1)
        noiseterm = np.random.normal(loc=0, scale=par.sigma, size=1)
        RVdict_alt[i+1].append(ta - par.c + noiseterm[0])
    else:
        (the same with tb and EUb)
  \<close>
\<close>

definition alt_branch ::
  "par \<Rightarrow> real dict \<Rightarrow> nat \<Rightarrow> nat \<Rightarrow> int \<Rightarrow> int \<Rightarrow> error + real \<Rightarrow> int \<Rightarrow> error + real
     \<Rightarrow> alt_state \<times> rng \<Rightarrow> error + (alt_state \<times> rng)" where
  "alt_branch p RVdict i n t0 ta EUa tb EUb st =
     (case st of ((switchdict, careerdict_alt, EVdict_alt, RVdict_alt), g) \<Rightarrow>
     bind_err (get2 RVdict (i + 1) n) (\<lambda>rv.
     bind_err EUa (\<lambda>ea.
     bind_err EUb (\<lambda>eb.
       let cmax = np_max3 rv (ea - c p) (eb - c p) in
       if cmax = rv then
         bind_err (dict_append careerdict_alt (i + 1) (Inr t0)) (\<lambda>careerdict_alt'.
         bind_err (dict_append EVdict_alt (i + 1) (get2 RVdict (i + 1) n)) (\<lambda>EVdict_alt'.
         bind_err (dict_append switchdict (i + 1) (Inr 0)) (\<lambda>switchdict'.
         bind_err (dict_append RVdict_alt (i + 1) (get2 RVdict (i + 1) n)) (\<lambda>RVdict_alt'.
           Inr ((switchdict', careerdict_alt', EVdict_alt', RVdict_alt'), g)))))
       else if cmax = ea - c p then
         bind_err (dict_append careerdict_alt (i + 1) (Inr ta)) (\<lambda>careerdict_alt'.
         bind_err (dict_append EVdict_alt (i + 1) (Inr (ea - c p))) (\<lambda>EVdict_alt'.
         bind_err (dict_append switchdict (i + 1) (Inr 1)) (\<lambda>switchdict'.
         bind_err (normal 0 (sigma p) 1 g) (\<lambda>(noiseterm, g').
         bind_err (dict_append RVdict_alt (i + 1)
                     (bind_err (getitem noiseterm 0) (\<lambda>x. Inr (real_of_int ta - c p + x))))
           (\<lambda>RVdict_alt'.
           Inr ((switchdict', careerdict_alt', EVdict_alt', RVdict_alt'), g'))))))
       else
         bind_err (dict_append careerdict_alt (i + 1) (Inr tb)) (\<lambda>careerdict_alt'.
         bind_err (dict_append EVdict_alt (i + 1) (Inr (eb - c p))) (\<lambda>EVdict_alt'.
         bind_err (dict_append switchdict (i + 1) (Inr 1)) (\<lambda>switchdict'.
         bind_err (normal 0 (sigma p) 1 g) (\<lambda>(noiseterm, g').
         bind_err (dict_append RVdict_alt (i + 1)
                     (bind_err (getitem noiseterm 0) (\<lambda>x. Inr (real_of_int tb - c p + x))))
           (\<lambda>RVdict_alt'.
           Inr ((switchdict', careerdict_alt', EVdict_alt', RVdict_alt'), g'))))))))))"

text \<open>The body of the loops for the type with index \<open>i\<close> and the trial \<open>n\<close>.\<close>

definition career_alt_step ::
  "par \<Rightarrow> int dict \<Rightarrow> real dict \<Rightarrow> nat \<Rightarrow> nat \<Rightarrow> alt_state \<times> rng
     \<Rightarrow> error + (alt_state \<times> rng)" where
  "career_alt_step p careerdict RVdict i n st =
     bind_err (v1 p (snd st)) (\<lambda>(EUv1, g1).
     bind_err (v2 p g1) (\<lambda>(EUv2, g2).
     bind_err (v3 p g2) (\<lambda>(EUv3, g3).
     bind_err (get2 careerdict (i + 1) n) (\<lambda>t.
       if t = 1 then
         alt_branch p RVdict i n 1 2 (getitem EUv2 i) 3 (getitem EUv3 i) (fst st, g3)
       else if t = 2 then
         alt_branch p RVdict i n 2 1 (getitem EUv1 i) 3 (getitem EUv3 i) (fst st, g3)
       else
         alt_branch p RVdict i n 3 1 (getitem EUv1 i) 2 (getitem EUv2 i) (fst st, g3)))))"

text \<open>\<open>for n in range(0,par.K)\<close> and \<open>for i in range(0,par.N)\<close>.\<close>

fun career_alt_inner ::
  "par \<Rightarrow> int dict \<Rightarrow> real dict \<Rightarrow> nat \<Rightarrow> nat list \<Rightarrow> alt_state \<times> rng
     \<Rightarrow> error + (alt_state \<times> rng)" where
  "career_alt_inner p careerdict RVdict i [] st = Inr st"
| "career_alt_inner p careerdict RVdict i (n # ns) st =
     bind_err (career_alt_step p careerdict RVdict i n st)
       (career_alt_inner p careerdict RVdict i ns)"

fun career_alt_outer ::
  "par \<Rightarrow> int dict \<Rightarrow> real dict \<Rightarrow> nat list \<Rightarrow> alt_state \<times> rng
     \<Rightarrow> error + (alt_state \<times> rng)" where
  "career_alt_outer p careerdict RVdict [] st = Inr st"
| "career_alt_outer p careerdict RVdict (i # is) st =
     bind_err (career_alt_inner p careerdict RVdict i [0..<nat (K p)] st)
       (career_alt_outer p careerdict RVdict is)"

definition career_alt ::
  "par \<Rightarrow> int dict \<Rightarrow> real dict \<Rightarrow> rng \<Rightarrow> error + (alt_state \<times> rng)" where
  "career_alt p careerdict RVdict g =
     career_alt_outer p careerdict RVdict [0..<nat (N p)]
       ((dict10, dict10, dict10, dict10), g)"

subsection \<open>Grouping the switches by the first choice: \<open>sort_career\<close>\<close>

type_synonym sort_state = "int dict \<times> int dict \<times> int dict"

text \<open>
  The state is \<open>(v1_original, v2_original, v3_original)\<close>; the body appends 1 or 0 to
  the list of the first choice.
\<close>

definition sort_career_step ::
  "int dict \<Rightarrow> int dict \<Rightarrow> nat \<Rightarrow> nat \<Rightarrow> sort_state \<Rightarrow> error + sort_state" where
  "sort_career_step switchdict careerdict i n st =
     (case st of (v1_original, v2_original, v3_original) \<Rightarrow>
     bind_err (get2 careerdict (i + 1) n) (\<lambda>t.
       if t = 1 then
         bind_err (get2 switchdict (i + 1) n) (\<lambda>s.
         bind_err (dict_append v1_original (i + 1) (Inr (if s = 1 then 1 else 0)))
           (\<lambda>v1_original'. Inr (v1_original', v2_original, v3_original)))
       else if t = 2 then
         bind_err (get2 switchdict (i + 1) n) (\<lambda>s.
         bind_err (dict_append v2_original (i + 1) (Inr (if s = 1 then 1 else 0)))
           (\<lambda>v2_original'. Inr (v1_original, v2_original', v3_original)))
       else
         bind_err (get2 switchdict (i + 1) n) (\<lambda>s.
         bind_err (dict_append v3_original (i + 1) (Inr (if s = 1 then 1 else 0)))
           (\<lambda>v3_original'. Inr (v1_original, v2_original, v3_original')))))"

fun sort_career_inner ::
  "int dict \<Rightarrow> int dict \<Rightarrow> nat \<Rightarrow> nat list \<Rightarrow> sort_state \<Rightarrow> error + sort_state" where
  "sort_career_inner switchdict careerdict i [] st = Inr st"
| "sort_career_inner switchdict careerdict i (n # ns) st =
     bind_err (sort_career_step switchdict careerdict i n st)
       (sort_career_inner switchdict careerdict i ns)"

fun sort_career_outer ::
  "par \<Rightarrow> int dict \<Rightarrow> int dict \<Rightarrow> nat list \<Rightarrow> sort_state \<Rightarrow> error + sort_state" where
  "sort_career_outer p switchdict careerdict [] st = Inr st"
| "sort_career_outer p switchdict careerdict (i # is) st =
     bind_err (sort_career_inner switchdict careerdict i [0..<nat (K p)] st)
       (sort_career_outer p switchdict careerdict is)"

definition sort_career :: "par \<Rightarrow> int dict \<Rightarrow> int dict \<Rightarrow> error + sort_state" where
  "sort_career p switchdict careerdict =
     sort_career_outer p switchdict careerdict [0..<nat (N p)] (dict10, dict10, dict10)"

subsection \<open>The aggregators \<open>count\<close> and \<open>count2\<close>\<close>

text \<open>
  Python's \<open>/\<close> on two integers raises \<open>ZeroDivisionError\<close> on a zero divisor and
  otherwise returns the double nearest to the exact quotient, a tie going to the double
  with an even significand. A double has a significand of 53 bits: for
  \<open>2 ^ e \<le> |x| < 2 ^ (e + 1)\<close> the doubles around \<open>x\<close> are the multiples of
  \<open>2 ^ (e - 52)\<close>. \<open>round_even\<close> rounds to the nearest integer, ties to even.
  \<open>expo_down x 0\<close> is the exponent \<open>e\<close> for \<open>|x| \<ge> 1\<close> and \<open>expo_up x 0\<close> is
  \<open>- e\<close> for \<open>0 < |x| < 1\<close>; both search upwards from 0. The range of the exponent
  of a double is not modelled: a quotient of a counter by the length of a list lies
  between \<open>2 ^ - 1022\<close> and 1 for every list a machine can hold. \<open>fadd\<close> is
  Python's \<open>+\<close> on two doubles, the way a caller adds the shares.
\<close>

definition round_even :: "real \<Rightarrow> int" where
  "round_even y =
     (let f = \<lfloor>y\<rfloor>; r = y - of_int f
      in if r < 1 / 2 then f
         else if 1 / 2 < r then f + 1
         else if even f then f else f + 1)"

function expo_down :: "real \<Rightarrow> nat \<Rightarrow> nat" where
  "expo_down x n = (if x < 2 ^ (n + 1) then n else expo_down x (n + 1))"
  by pat_completeness auto
termination
proof (relation "measure (\<lambda>(x, n). nat \<lceil>x\<rceil> - n)")
  show "wf (measure (\<lambda>(x, n). nat \<lceil>x\<rceil> - n))" by simp
next
  fix x :: real and n :: nat
  assume "\<not> x < 2 ^ (n + 1)"
  then have "(2::real) ^ (n + 1) \<le> x" by simp
  moreover have "real (n + 1) < 2 ^ (n + 1)"
    by (rule of_nat_less_two_power)
  ultimately have "real (n + 1) < x" by linarith
  then have "int (n + 1) < \<lceil>x\<rceil>" by linarith
  then show "((x, n + 1), (x, n)) \<in> measure (\<lambda>(x, n). nat \<lceil>x\<rceil> - n)"
    by simp
qed

function expo_up :: "real \<Rightarrow> nat \<Rightarrow> nat" where
  "expo_up x k = (if x \<le> 0 \<or> 1 \<le> x * 2 ^ k then k else expo_up x (k + 1))"
  by pat_completeness auto
termination
proof (relation "measure (\<lambda>(x, k). nat \<lceil>1 / x\<rceil> - k)")
  show "wf (measure (\<lambda>(x, k). nat \<lceil>1 / x\<rceil> - k))" by simp
next
  fix x :: real and k :: nat
  assume "\<not> (x \<le> 0 \<or> 1 \<le> x * 2 ^ k)"
  then have x: "0 < x" and lt: "x * 2 ^ k < 1" by simp_all
  from lt x have "(2::real) ^ k < 1 / x"
    by (simp add: field_simps)
  moreover have "real k < 2 ^ k"
    by (rule of_nat_less_two_power)
  ultimately have "real k < 1 / x" by linarith
  then have "int k < \<lceil>1 / x\<rceil>" by linarith
  then show "((x, k + 1), (x, k)) \<in> measure (\<lambda>(x, k). nat \<lceil>1 / x\<rceil> - k)"
    by simp
qed

definition round_double :: "real \<Rightarrow> real" where
  "round_double x =
     (if x = 0 then 0
      else if 1 \<le> \<bar>x\<bar> then
        (let n = expo_down \<bar>x\<bar> 0
         in sgn x * (of_int (round_even (\<bar>x\<bar> * 2 ^ 52 / 2 ^ n)) * 2 ^ n / 2 ^ 52))
      else
        (let k = expo_up \<bar>x\<bar> 0
         in sgn x * (of_int (round_even (\<bar>x\<bar> * 2 ^ 52 * 2 ^ k)) / (2 ^ 52 * 2 ^ k))))"


text \<open>
  The loop of \<open>count\<close> over the elements, on the counters
  \<open>(count1, count2, count3)\<close>, and the three divisions.
\<close>

fun count_loop :: "int list \<Rightarrow> int \<times> int \<times> int \<Rightarrow> int \<times> int \<times> int" where
  "count_loop [] cs = cs"
| "count_loop (element # rest) (count1, count2, count3) =
     (if element = 1 then count_loop rest (count1 + 1, count2, count3)
      else if element = 2 then count_loop rest (count1, count2 + 1, count3)
      else count_loop rest (count1, count2, count3 + 1))"

definition truediv :: "int \<Rightarrow> int \<Rightarrow> error + real" where
  "truediv a b =
     (if b = 0 then Inl ZeroDivisionError
      else Inr (round_double (real_of_int a / real_of_int b)))"

definition count :: "int list \<Rightarrow> error + real list" where
  "count list =
     (case count_loop list (0, 0, 0) of (count1, count2, count3) \<Rightarrow>
     bind_err (truediv count1 (int (length list))) (\<lambda>v1.
     bind_err (truediv count2 (int (length list))) (\<lambda>v2.
     bind_err (truediv count3 (int (length list))) (\<lambda>v3.
       Inr [v1, v2, v3]))))"

fun count2_loop :: "int list \<Rightarrow> int \<times> int \<Rightarrow> int \<times> int" where
  "count2_loop [] cs = cs"
| "count2_loop (element # rest) (count0, count1) =
     (if element = 0 then count2_loop rest (count0 + 1, count1)
      else count2_loop rest (count0, count1 + 1))"

definition count2 :: "int list \<Rightarrow> error + real" where
  "count2 list =
     (case count2_loop list (0, 0) of (count0, count1) \<Rightarrow>
        truediv count1 (int (length list)))"

subsection \<open>Positions in the random stream\<close>

text \<open>
  The functions of this subsection are not in the code: they name what the code reads
  from the stream, for the statements below. \<open>tri j\<close> is the number of variates the
  loop of \<open>v1\<close> has read before it reaches the type with index \<open>j\<close> (sizes
  \<open>1, ..., j\<close>). \<open>EU_at b s g i\<close> is the value \<open>1/i*(b*i + eps.sum())\<close> when
  \<open>eps\<close> is drawn from the state \<open>g\<close>. \<open>career_row p g j\<close> is the track, the
  expected utility and the realized utility that one call of \<open>career\<close> from the
  state \<open>g\<close> returns at index \<open>j\<close>, and \<open>draws_per_career\<close> the number of
  variates such a call reads. \<open>trial_state p g i n\<close> is the state in which
  \<open>simulate\<close>, started from \<open>g\<close>, makes the call of \<open>career\<close> for the type with
  index \<open>i\<close> and the value \<open>n\<close> of the counter.
\<close>

definition tri :: "nat \<Rightarrow> nat" where
  "tri n = n * (n + 1) div 2"

definition EU_at :: "real \<Rightarrow> real \<Rightarrow> rng \<Rightarrow> nat \<Rightarrow> real" where
  "EU_at b s g i = 1 / real i * (b * real i + sum_list (map (\<lambda>k. s * g k) [0..<i]))"

definition career_row :: "par \<Rightarrow> rng \<Rightarrow> nat \<Rightarrow> int \<times> real \<times> real" where
  "career_row p g j =
     (let T = tri (nat (N p));
          s = sigma p
      in case first_choice (EU_at 1 s (advance (tri j) g) (j + 1))
                           (EU_at 2 s (advance (T + tri j) g) (j + 1))
                           (EU_at 3 s (advance (2 * T + tri j) g) (j + 1)) of
           (t, ev) \<Rightarrow> (t, ev, real_of_int t + s * g (3 * T + j)))"

definition draws_per_career :: "par \<Rightarrow> nat" where
  "draws_per_career p = 3 * tri (nat (N p)) + nat (N p)"

definition trial_state :: "par \<Rightarrow> rng \<Rightarrow> nat \<Rightarrow> nat \<Rightarrow> rng" where
  "trial_state p g i n = advance ((i * nat (K p + 1) + n) * draws_per_career p) g"

definition zero_rng :: rng where
  "zero_rng = (\<lambda>k. 0)"

text \<open>
  The expected utility as the specification words it, for comparison with \<open>v1\<close>,
  \<open>v2\<close> and \<open>v3\<close>: the base \<open>j * i\<close> of track \<open>j\<close> and type \<open>i\<close> plus the
  mean of the draws \<open>eps\<close>.
\<close>

definition EU_spec :: "nat \<Rightarrow> nat \<Rightarrow> real list \<Rightarrow> real" where
  "EU_spec j i eps = real j * real i + sum_list eps / real i"

text \<open>
  The dictionaries \<open>simulate\<close> holds when the types with an index below \<open>j\<close>
  are done: \<open>f i\<close> is the list of the type with index \<open>i\<close>. \<open>sim_careers\<close>,
  \<open>sim_EVs\<close> and \<open>sim_RVs\<close> are the lists \<open>simulate\<close> collects for a type.
\<close>

definition sim_dict :: "nat \<Rightarrow> (nat \<Rightarrow> 'a list) \<Rightarrow> 'a dict" where
  "sim_dict j f = (\<lambda>k. if 1 \<le> k \<and> k \<le> 10 then Some (if k \<le> j then f (k - 1) else []) else None)"

definition sim_careers :: "par \<Rightarrow> rng \<Rightarrow> nat \<Rightarrow> int list" where
  "sim_careers p g i = map (\<lambda>m. fst (career_row p (trial_state p g i m) i)) [0..<nat (K p + 1)]"

definition sim_EVs :: "par \<Rightarrow> rng \<Rightarrow> nat \<Rightarrow> real list" where
  "sim_EVs p g i = map (\<lambda>m. fst (snd (career_row p (trial_state p g i m) i))) [0..<nat (K p + 1)]"

definition sim_RVs :: "par \<Rightarrow> rng \<Rightarrow> nat \<Rightarrow> real list" where
  "sim_RVs p g i = map (\<lambda>m. snd (snd (career_row p (trial_state p g i m) i))) [0..<nat (K p + 1)]"

text \<open>
  What \<open>career_alt\<close> appends in one trial is a record (switch indicator, new track,
  new expected utility, new realized utility). \<open>alt_row\<close> is the record of one block
  of the body and the generator it leaves, \<open>alt_trial\<close> the record of one pass of the
  body from the state \<open>g\<close> with the first choice \<open>t\<close> and its realized utility
  \<open>rv\<close>, \<open>alt_rows\<close> the records of the trials \<open>ns\<close> of a type in order.
  \<open>alt_put k rows\<close> appends records to the four lists of the key \<open>k\<close>, and
  \<open>alt_has k\<close> says that the four dictionaries have the key. \<open>alt_gen\<close> is the
  generator when the loop reaches a type, \<open>alt_recs\<close> the records of a type, and
  \<open>alt_dicts R j\<close> the four dictionaries when the types below \<open>j\<close> are done.
  \<open>alt_input_ok\<close> is what \<open>career_alt\<close> needs of its arguments to read them
  without a \<open>KeyError\<close> or an \<open>IndexError\<close>: a list of at least \<open>K\<close> elements
  for every type.
\<close>

type_synonym alt_rec = "int \<times> int \<times> real \<times> real"

definition alt_row ::
  "par \<Rightarrow> real \<Rightarrow> int \<Rightarrow> int \<Rightarrow> real \<Rightarrow> int \<Rightarrow> real \<Rightarrow> rng \<Rightarrow> alt_rec \<times> rng" where
  "alt_row p rv t0 ta ea tb eb g =
     (let cmax = np_max3 rv (ea - c p) (eb - c p)
      in if cmax = rv then ((0, t0, rv, rv), g)
         else if cmax = ea - c p then
           ((1, ta, ea - c p, real_of_int ta - c p + sigma p * g 0), advance 1 g)
         else ((1, tb, eb - c p, real_of_int tb - c p + sigma p * g 0), advance 1 g))"

definition alt_trial :: "par \<Rightarrow> nat \<Rightarrow> int \<Rightarrow> real \<Rightarrow> rng \<Rightarrow> alt_rec \<times> rng" where
  "alt_trial p i t rv g =
     (let T = tri (nat (N p));
          s = sigma p;
          e1 = EU_at 1 s (advance (tri i) g) (i + 1);
          e2 = EU_at 2 s (advance (T + tri i) g) (i + 1);
          e3 = EU_at 3 s (advance (2 * T + tri i) g) (i + 1);
          g3 = advance (3 * T) g
      in if t = 1 then alt_row p rv 1 2 e2 3 e3 g3
         else if t = 2 then alt_row p rv 2 1 e1 3 e3 g3
         else alt_row p rv 3 1 e1 2 e2 g3)"

fun alt_rows ::
  "par \<Rightarrow> nat \<Rightarrow> int list \<Rightarrow> real list \<Rightarrow> nat list \<Rightarrow> rng \<Rightarrow> alt_rec list \<times> rng" where
  "alt_rows p i cl rl [] g = ([], g)"
| "alt_rows p i cl rl (n # ns) g =
     (case alt_trial p i (cl ! n) (rl ! n) g of (row, g') \<Rightarrow>
        (case alt_rows p i cl rl ns g' of (rows, g'') \<Rightarrow> (row # rows, g'')))"

definition alt_put :: "nat \<Rightarrow> alt_rec list \<Rightarrow> alt_state \<Rightarrow> alt_state" where
  "alt_put k rows st =
     (case st of (sw, cda, eda, rda) \<Rightarrow>
        (sw(k \<mapsto> the (sw k) @ map fst rows),
         cda(k \<mapsto> the (cda k) @ map (fst \<circ> snd) rows),
         eda(k \<mapsto> the (eda k) @ map (fst \<circ> snd \<circ> snd) rows),
         rda(k \<mapsto> the (rda k) @ map (snd \<circ> snd \<circ> snd) rows)))"

definition alt_has :: "nat \<Rightarrow> alt_state \<Rightarrow> bool" where
  "alt_has k st =
     (case st of (sw, cda, eda, rda) \<Rightarrow>
        sw k \<noteq> None \<and> cda k \<noteq> None \<and> eda k \<noteq> None \<and> rda k \<noteq> None)"

fun alt_gen :: "par \<Rightarrow> int dict \<Rightarrow> real dict \<Rightarrow> rng \<Rightarrow> nat \<Rightarrow> rng" where
  "alt_gen p careerdict RVdict g 0 = g"
| "alt_gen p careerdict RVdict g (Suc j) =
     snd (alt_rows p j (the (careerdict (j + 1))) (the (RVdict (j + 1))) [0..<nat (K p)]
            (alt_gen p careerdict RVdict g j))"

definition alt_recs :: "par \<Rightarrow> int dict \<Rightarrow> real dict \<Rightarrow> rng \<Rightarrow> nat \<Rightarrow> alt_rec list" where
  "alt_recs p careerdict RVdict g j =
     fst (alt_rows p j (the (careerdict (j + 1))) (the (RVdict (j + 1))) [0..<nat (K p)]
            (alt_gen p careerdict RVdict g j))"

definition alt_dicts :: "(nat \<Rightarrow> alt_rec list) \<Rightarrow> nat \<Rightarrow> alt_state" where
  "alt_dicts R j =
     (sim_dict j (\<lambda>i. map fst (R i)),
      sim_dict j (\<lambda>i. map (fst \<circ> snd) (R i)),
      sim_dict j (\<lambda>i. map (fst \<circ> snd \<circ> snd) (R i)),
      sim_dict j (\<lambda>i. map (snd \<circ> snd \<circ> snd) (R i)))"

definition alt_input_ok :: "par \<Rightarrow> int dict \<Rightarrow> real dict \<Rightarrow> bool" where
  "alt_input_ok p careerdict RVdict =
     (\<forall>i \<in> set [0..<nat (N p)].
        case careerdict (i + 1) of
          None \<Rightarrow> False
        | Some cl \<Rightarrow>
            (case RVdict (i + 1) of
               None \<Rightarrow> False
             | Some rl \<Rightarrow> nat (K p) \<le> length cl \<and> nat (K p) \<le> length rl))"

section \<open>Properties\<close>

subsection \<open>Sequencing and the random source\<close>

lemma bind_err_Inl [simp]: "bind_err (Inl e) f = Inl e"
  by (simp add: bind_err_def)

lemma bind_err_Inr [simp]: "bind_err (Inr x) f = f x"
  by (simp add: bind_err_def)

lemma advance_apply: "advance n g k = g (k + n)"
  by (simp add: advance_def)

lemma advance_advance [simp]: "advance m (advance n g) = advance (n + m) g"
  by (rule ext) (simp add: advance_def ac_simps)

lemma advance_0 [simp]: "advance 0 g = g"
  by (rule ext) (simp add: advance_def)

lemma normal_ok: "0 \<le> s \<Longrightarrow> normal 0 s n g = Inr (map (\<lambda>k. s * g k) [0..<n], advance n g)"
  by (simp add: normal_def)

lemma normal_neg: "s < 0 \<Longrightarrow> normal l s n g = Inl ValueError"
  by (simp add: normal_def)

lemma sum_list_upt_tri: "sum_list [Suc 0..<Suc n] = tri n"
  by (induction n) (simp_all add: tri_def)

lemma tri_Suc: "tri (Suc n) = tri n + Suc n"
  by (simp add: tri_def)

lemma EU_loop_step:
  "0 \<le> s \<Longrightarrow> EU_loop b s (i # is) g =
     bind_err (EU_loop b s is (advance i g)) (\<lambda>(EU, g''). Inr (EU_at b s g i # EU, g''))"
  by (simp add: normal_ok EU_at_def bind_err_def split: sum.splits)

lemma EU_loop_ok:
  "0 \<le> s \<Longrightarrow> EU_loop b s is g =
     Inr (map (\<lambda>j. EU_at b s (advance (sum_list (take j is)) g) (is ! j)) [0..<length is],
          advance (sum_list is) g)"
proof (induction "is" arbitrary: g)
  case Nil
  then show ?case by simp
next
  case (Cons i "is")
  have "EU_loop b s (i # is) g =
      Inr (EU_at b s g i #
           map (\<lambda>j. EU_at b s (advance (i + sum_list (take j is)) g) (is ! j)) [0..<length is],
           advance (i + sum_list is) g)"
    using Cons.prems by (simp add: EU_loop_step Cons.IH del: EU_loop.simps)
  also have "\<dots> = Inr (map (\<lambda>j. EU_at b s (advance (sum_list (take j (i # is))) g) ((i # is) ! j))
                        [0..<length (i # is)],
                      advance (sum_list (i # is)) g)"
    by (simp add: map_upt_Suc del: upt_Suc)
  finally show ?case .
qed

lemma types_upt: "[Suc 0..<nat (N p + 1)] = [Suc 0..<Suc (nat (N p))]"
  by (cases "0 \<le> N p") (simp_all add: nat_add_distrib)

lemma EU_types_ok:
  assumes "0 \<le> s"
  shows "EU_loop b s [Suc 0..<Suc n] g =
     Inr (map (\<lambda>j. EU_at b s (advance (tri j) g) (j + 1)) [0..<n], advance (tri n) g)"
proof -
  have "map (\<lambda>j. EU_at b s (advance (sum_list (take j [Suc 0..<Suc n])) g) ([Suc 0..<Suc n] ! j))
          [0..<n]
      = map (\<lambda>j. EU_at b s (advance (tri j) g) (j + 1)) [0..<n]"
  proof (rule map_cong[OF refl])
    fix j assume "j \<in> set [0..<n]"
    then have j: "j < n" by simp
    then have "take j [Suc 0..<Suc n] = [Suc 0..<Suc j]"
      by (simp add: take_upt del: upt_Suc)
    moreover have "[Suc 0..<Suc n] ! j = j + 1"
      using j by (simp add: nth_upt del: upt_Suc)
    ultimately show "EU_at b s (advance (sum_list (take j [Suc 0..<Suc n])) g)
          ([Suc 0..<Suc n] ! j)
        = EU_at b s (advance (tri j) g) (j + 1)"
      by (simp only: sum_list_upt_tri)
  qed
  moreover have "length [Suc 0..<Suc n] = n" by simp
  ultimately show ?thesis
    using EU_loop_ok[OF assms, of b "[Suc 0..<Suc n]" g] by (simp only: sum_list_upt_tri)
qed

lemma career_loop1_ok:
  assumes "0 \<le> s" and "\<forall>i \<in> set is. i < length E1 \<and> i < length E2 \<and> i < length E3"
  shows "career_loop1 s E1 E2 E3 is g =
     Inr ((map (\<lambda>i. fst (first_choice (E1 ! i) (E2 ! i) (E3 ! i))) is,
           map (\<lambda>i. snd (first_choice (E1 ! i) (E2 ! i) (E3 ! i))) is,
           map (\<lambda>k. s * g k) [0..<length is]),
          advance (length is) g)"
  using assms
proof (induction "is" arbitrary: g)
  case Nil
  then show ?case by simp
next
  case (Cons i "is")
  then show ?case
    by (simp add: getitem_def normal_ok map_upt_Suc advance_apply split: prod.splits del: upt_Suc)
qed

lemma career_loop2_ok:
  assumes "\<forall>i \<in> set is. i < length cs \<and> i < length ns"
  shows "career_loop2 cs ns is =
     Inr (map (\<lambda>i. real_of_int (cs ! i) + ns ! i) is)"
  using assms by (induction "is") (simp_all add: getitem_def)

lemma career_ok:
  assumes "0 \<le> sigma p"
  shows "career p g =
     Inr ((map (\<lambda>j. fst (career_row p g j)) [0..<nat (N p)],
           map (\<lambda>j. fst (snd (career_row p g j))) [0..<nat (N p)],
           map (\<lambda>j. snd (snd (career_row p g j))) [0..<nat (N p)]),
          advance (draws_per_career p) g)"
proof -
  let ?n = "nat (N p)" and ?s = "sigma p" and ?T = "tri (nat (N p))"
  let ?E1 = "map (\<lambda>j. EU_at 1 ?s (advance (tri j) g) (j + 1)) [0..<?n]"
  let ?E2 = "map (\<lambda>j. EU_at 2 ?s (advance (?T + tri j) g) (j + 1)) [0..<?n]"
  let ?E3 = "map (\<lambda>j. EU_at 3 ?s (advance (2 * ?T + tri j) g) (j + 1)) [0..<?n]"
  let ?g3 = "advance (3 * ?T) g"
  have v1: "v1 p g = Inr (?E1, advance ?T g)"
    using assms by (simp add: v1_def types_upt EU_types_ok del: upt_Suc)
  have e2: "?T + ?T = 2 * ?T" and e3: "2 * ?T + ?T = 3 * ?T"
    by simp_all
  have v2: "v2 p (advance ?T g) = Inr (?E2, advance (2 * ?T) g)"
    using assms by (simp add: v2_def types_upt EU_types_ok e2 del: upt_Suc)
  have v3: "v3 p (advance (2 * ?T) g) = Inr (?E3, ?g3)"
    using assms by (simp add: v3_def types_upt EU_types_ok e3 del: upt_Suc)
  let ?car = "map (\<lambda>i. fst (first_choice (?E1 ! i) (?E2 ! i) (?E3 ! i))) [0..<?n]"
  let ?EV = "map (\<lambda>i. snd (first_choice (?E1 ! i) (?E2 ! i) (?E3 ! i))) [0..<?n]"
  let ?noise = "map (\<lambda>k. ?s * ?g3 k) [0..<?n]"
  have l1: "career_loop1 ?s ?E1 ?E2 ?E3 [0..<?n] ?g3 = Inr ((?car, ?EV, ?noise), advance ?n ?g3)"
    using assms by (subst career_loop1_ok) simp_all
  have l2: "career_loop2 ?car ?noise [0..<?n] =
      Inr (map (\<lambda>i. real_of_int (?car ! i) + ?noise ! i) [0..<?n])"
    by (subst career_loop2_ok) simp_all
  have c1: "?car = map (\<lambda>j. fst (career_row p g j)) [0..<?n]"
    by (rule map_cong[OF refl]) (simp add: career_row_def Let_def split: prod.splits)
  have c2: "?EV = map (\<lambda>j. fst (snd (career_row p g j))) [0..<?n]"
    by (rule map_cong[OF refl]) (simp add: career_row_def Let_def split: prod.splits)
  have c3: "map (\<lambda>i. real_of_int (?car ! i) + ?noise ! i) [0..<?n] =
      map (\<lambda>j. snd (snd (career_row p g j))) [0..<?n]"
    by (rule map_cong[OF refl])
       (simp add: career_row_def Let_def advance_apply ac_simps split: prod.splits)
  have "career p g = Inr ((?car, ?EV, map (\<lambda>i. real_of_int (?car ! i) + ?noise ! i) [0..<?n]),
      advance ?n ?g3)"
    by (simp only: career_def v1 v2 v3 l1 l2 bind_err_Inr prod.case)
  also have "\<dots> = Inr ((?car, ?EV, map (\<lambda>j. snd (snd (career_row p g j))) [0..<?n]),
      advance ?n ?g3)"
    by (simp only: c3)
  finally show ?thesis
    by (simp only: c1 c2 advance_advance draws_per_career_def)
qed

lemma v1_ok:
  "0 \<le> sigma p \<Longrightarrow> v1 p g =
     Inr (map (\<lambda>j. EU_at 1 (sigma p) (advance (tri j) g) (j + 1)) [0..<nat (N p)],
          advance (tri (nat (N p))) g)"
  by (simp add: v1_def types_upt EU_types_ok del: upt_Suc)

lemma v2_ok:
  "0 \<le> sigma p \<Longrightarrow> v2 p g =
     Inr (map (\<lambda>j. EU_at 2 (sigma p) (advance (tri j) g) (j + 1)) [0..<nat (N p)],
          advance (tri (nat (N p))) g)"
  by (simp add: v2_def types_upt EU_types_ok del: upt_Suc)

lemma v3_ok:
  "0 \<le> sigma p \<Longrightarrow> v3 p g =
     Inr (map (\<lambda>j. EU_at 3 (sigma p) (advance (tri j) g) (j + 1)) [0..<nat (N p)],
          advance (tri (nat (N p))) g)"
  by (simp add: v3_def types_upt EU_types_ok del: upt_Suc)

lemma EU_at_mean:
  "0 < i \<Longrightarrow> EU_at b s (advance q g) i = b + sum_list (map (\<lambda>k. s * g (q + k)) [0..<i]) / real i"
  by (simp add: EU_at_def advance_apply field_simps)

lemma advance_zero_rng [simp]: "advance n zero_rng = zero_rng"
  by (rule ext) (simp add: advance_def zero_rng_def)

lemma EU_at_zero_rng: "0 < i \<Longrightarrow> EU_at b s zero_rng i = b"
  using EU_at_mean [of i b s 0 zero_rng] by (simp add: zero_rng_def)

subsection \<open>The expected-utility estimators\<close>

text \<open>
  Claim C1, as the code has it. For a scale \<open>sigma \<ge> 0\<close>, every type \<open>i\<close> in
  \<open>1..N\<close> and every track \<open>j\<close> in \<open>{1,2,3}\<close>, the estimator \<open>vj\<close> returns at
  the place of type \<open>i\<close> the number \<open>j\<close> plus the mean of \<open>i\<close> draws: the base is
  the number of the track and does not grow with \<open>i\<close>. The draws are \<open>sigma\<close> times
  the \<open>i\<close> variates of the stream that follow the \<open>tri (i - 1)\<close> variates read for
  the types before \<open>i\<close>.
\<close>

theorem v_estimates:
  assumes "0 \<le> sigma p" and "1 \<le> i" and "i \<le> nat (N p)"
  shows "\<exists>E1 E2 E3 g'.
           v1 p g = Inr (E1, g') \<and> v2 p g = Inr (E2, g') \<and> v3 p g = Inr (E3, g') \<and>
           length E1 = nat (N p) \<and> length E2 = nat (N p) \<and> length E3 = nat (N p) \<and>
           (let eps = map (\<lambda>k. sigma p * g (tri (i - 1) + k)) [0..<i];
                mean = sum_list eps / real i
            in E1 ! (i - 1) = 1 + mean \<and> E2 ! (i - 1) = 2 + mean \<and> E3 ! (i - 1) = 3 + mean)"
proof -
  have i: "i - 1 < nat (N p)" "0 < i" "Suc (i - 1) = i"
    using assms by simp_all
  show ?thesis
    using assms(1) i
    by (simp add: v1_ok v2_ok v3_ok EU_at_mean Let_def del: upt_Suc)
qed

theorem v_estimates_witness:
  "\<exists>E1 E2 E3 g'.
     v1 default_par zero_rng = Inr (E1, g') \<and> v2 default_par zero_rng = Inr (E2, g') \<and>
     v3 default_par zero_rng = Inr (E3, g') \<and>
     length E1 = 10 \<and> length E2 = 10 \<and> length E3 = 10 \<and>
     E1 ! 2 = 1 \<and> E2 ! 2 = 2 \<and> E3 ! 2 = 3"
  using v_estimates [of default_par 3 zero_rng]
  by (simp add: default_par_def zero_rng_def Let_def)

text \<open>
  Claim C1 as stated fails. With two types and a stream of zeros, \<open>v1\<close> returns 1 for
  the type \<open>i = 2\<close>, whose two draws are both 0, where the base \<open>j * i\<close> of the
  claim gives 2.
\<close>

theorem v1_base_counterexample:
  "v1 (default_par\<lparr>N := 2\<rparr>) zero_rng = Inr ([1, 1], zero_rng) \<and>
   normal 0 (sigma (default_par\<lparr>N := 2\<rparr>)) 2 (advance 1 zero_rng) = Inr ([0, 0], zero_rng) \<and>
   EU_spec 1 2 [0, 0] = 2"
  by (simp add: v1_ok default_par_def EU_at_zero_rng normal_ok EU_spec_def upt_conv_Cons
      zero_rng_def [THEN fun_cong])

subsection \<open>The aggregator \<open>count\<close>\<close>

declare expo_down.simps [simp del] expo_up.simps [simp del]






lemma round_double_0 [simp]: "round_double 0 = 0"
  by (simp add: round_double_def)






subsection \<open>The loops of \<open>simulate\<close>\<close>

lemma dict_get_Some [simp]: "d k = Some l \<Longrightarrow> dict_get d k = Inr l"
  by (simp add: dict_get_def)

lemma dict_get_None [simp]: "d k = None \<Longrightarrow> dict_get d k = Inl KeyError"
  by (simp add: dict_get_def)

lemma dict_append_ok: "d k = Some l \<Longrightarrow> dict_append d k (Inr x) = Inr (d(k \<mapsto> l @ [x]))"
  by (simp add: dict_append_def)

lemma getitem_ok: "i < length xs \<Longrightarrow> getitem xs i = Inr (xs ! i)"
  by (simp add: getitem_def)

lemma dict10_eq: "dict10 = sim_dict 0 f"
  by (rule ext) (auto simp: dict10_def sim_dict_def, arith)

lemma sim_dict_step:
  "j < 10 \<Longrightarrow> (sim_dict j f)(Suc j \<mapsto> f j) = sim_dict (Suc j) f"
  by (rule ext) (auto simp: sim_dict_def)

lemma sim_dict_cong: "(\<And>i. i < j \<Longrightarrow> f i = h i) \<Longrightarrow> sim_dict j f = sim_dict j h"
  by (rule ext) (auto simp: sim_dict_def)

lemma advance_eq: "a = b \<Longrightarrow> advance a g = advance b g"
  by simp

declare simulate_while.simps [simp del]

lemma simulate_while_ok:
  assumes "0 \<le> sigma p" and "i < nat (N p)"
    and "cd (i + 1) = Some cl" and "ed (i + 1) = Some el" and "rd (i + 1) = Some rl"
    and "r = nat (K p + 1 - n)"
  shows "simulate_while p i n ((cd, ed, rd), g) =
     Inr ((cd(i + 1 \<mapsto> cl @ map (\<lambda>m. fst (career_row p (advance (m * draws_per_career p) g) i)) [0..<r]),
           ed(i + 1 \<mapsto> el @ map (\<lambda>m. fst (snd (career_row p (advance (m * draws_per_career p) g) i))) [0..<r]),
           rd(i + 1 \<mapsto> rl @ map (\<lambda>m. snd (snd (career_row p (advance (m * draws_per_career p) g) i))) [0..<r])),
          advance (r * draws_per_career p) g)"
  using assms
proof (induction r arbitrary: n cd ed rd g cl el rl)
  case 0
  then have "\<not> n \<le> K p" by simp
  with 0 show ?case
    by (subst simulate_while.simps) (simp add: map_upd_triv)
next
  case (Suc r)
  then have n: "n \<le> K p" and r: "r = nat (K p + 1 - (n + 1))"
    by simp_all
  let ?d = "draws_per_career p"
  let ?cd = "cd(i + 1 \<mapsto> cl @ [fst (career_row p g i)])"
  let ?ed = "ed(i + 1 \<mapsto> el @ [fst (snd (career_row p g i))])"
  let ?rd = "rd(i + 1 \<mapsto> rl @ [snd (snd (career_row p g i))])"
  have step: "simulate_while p i n ((cd, ed, rd), g) =
      simulate_while p i (n + 1) ((?cd, ?ed, ?rd), advance ?d g)"
    using n Suc.prems(1-5)
    by (subst simulate_while.simps) (simp add: career_ok getitem_ok dict_append_def del: upt_Suc)
  have ih: "simulate_while p i (n + 1) ((?cd, ?ed, ?rd), advance ?d g) =
     Inr ((?cd(i + 1 \<mapsto> (cl @ [fst (career_row p g i)]) @ map (\<lambda>m. fst (career_row p (advance (m * ?d) (advance ?d g)) i)) [0..<r]),
           ?ed(i + 1 \<mapsto> (el @ [fst (snd (career_row p g i))]) @ map (\<lambda>m. fst (snd (career_row p (advance (m * ?d) (advance ?d g)) i))) [0..<r]),
           ?rd(i + 1 \<mapsto> (rl @ [snd (snd (career_row p g i))]) @ map (\<lambda>m. snd (snd (career_row p (advance (m * ?d) (advance ?d g)) i))) [0..<r])),
          advance (r * ?d) (advance ?d g))"
    by (rule Suc.IH [OF Suc.prems(1,2) _ _ _ r]) simp_all
  show ?case
    unfolding step ih
    by (auto simp: map_upt_Suc fun_eq_iff simp del: upt_Suc)
qed

lemma simulate_for_ok:
  assumes "0 \<le> sigma p" and "nat (N p) \<le> 10" and "j \<le> nat (N p)"
  shows "simulate_for p [j..<nat (N p)]
           ((sim_dict j (sim_careers p g), sim_dict j (sim_EVs p g), sim_dict j (sim_RVs p g)),
            advance (j * nat (K p + 1) * draws_per_career p) g) =
         Inr ((sim_dict (nat (N p)) (sim_careers p g), sim_dict (nat (N p)) (sim_EVs p g),
               sim_dict (nat (N p)) (sim_RVs p g)),
              advance (nat (N p) * nat (K p + 1) * draws_per_career p) g)"
  using assms(3)
proof (induction "nat (N p) - j" arbitrary: j)
  case 0
  then show ?case by simp
next
  case (Suc x)
  then have j: "j < nat (N p)" "j < 10" using assms(2) by simp_all
  let ?d = "draws_per_career p" and ?r = "nat (K p + 1)"
  let ?g = "advance (j * ?r * ?d) g"
  have ts: "\<And>m. advance (m * ?d) ?g = trial_state p g j m"
    by (simp add: trial_state_def algebra_simps)
  have w: "simulate_while p j 0
        ((sim_dict j (sim_careers p g), sim_dict j (sim_EVs p g), sim_dict j (sim_RVs p g)), ?g) =
      Inr (((sim_dict j (sim_careers p g))(j + 1 \<mapsto> [] @ sim_careers p g j),
            (sim_dict j (sim_EVs p g))(j + 1 \<mapsto> [] @ sim_EVs p g j),
            (sim_dict j (sim_RVs p g))(j + 1 \<mapsto> [] @ sim_RVs p g j)),
           advance (?r * ?d) ?g)"
    unfolding sim_careers_def sim_EVs_def sim_RVs_def ts [symmetric]
    by (rule simulate_while_ok [OF assms(1) j(1)]) (use j in \<open>simp_all add: sim_dict_def\<close>)
  have d: "\<And>f. (sim_dict j f)(j + 1 \<mapsto> [] @ f j) = sim_dict (Suc j) f"
    using j by (simp add: sim_dict_step)
  have g: "advance (?r * ?d) ?g = advance (Suc j * ?r * ?d) g"
    by (simp add: algebra_simps)
  have l: "[j..<nat (N p)] = j # [Suc j..<nat (N p)]"
    using j by (simp add: upt_conv_Cons)
  have "x = nat (N p) - Suc j" and "Suc j \<le> nat (N p)"
    using Suc.hyps(2) j by simp_all
  from Suc.hyps(1) [OF this] show ?case
    by (simp only: l simulate_for.simps w d g bind_err_Inr)
qed

lemma simulate_ok:
  assumes "0 \<le> sigma p" and "N p \<le> 10"
  shows "simulate p g =
         Inr ((sim_dict (nat (N p)) (sim_careers p g), sim_dict (nat (N p)) (sim_EVs p g),
               sim_dict (nat (N p)) (sim_RVs p g)),
              advance (nat (N p) * nat (K p + 1) * draws_per_career p) g)"
proof -
  have "nat (N p) \<le> 10" using assms(2) by simp
  from simulate_for_ok [OF assms(1) this, of 0 g] show ?thesis
    by (simp add: simulate_def dict10_eq [symmetric] del: upt_Suc)
qed

subsection \<open>The first choice in \<open>simulate\<close>\<close>

lemma first_choice_cases:
  "first_choice e1 e2 e3 = (t, ev) \<Longrightarrow>
     (t = 1 \<and> ev = e1 \<and> e2 \<le> e1 \<and> e3 \<le> e1) \<or>
     (t = 2 \<and> ev = e2 \<and> e1 < e2 \<and> e3 \<le> e2) \<or>
     (t = 3 \<and> ev = e3 \<and> e1 < e3 \<and> e2 < e3)"
  by (auto simp: first_choice_def np_max3_def Let_def max_def split: if_splits)

text \<open>Equal estimates: the lowest tied track is taken.\<close>

lemma first_choice_ties:
  "first_choice 2 2 2 = (1, 2)" "first_choice 2 2 1 = (1, 2)" "first_choice 2 1 2 = (1, 2)"
  "first_choice 1 2 2 = (2, 2)"
  by (simp_all add: first_choice_def np_max3_def Let_def)

lemma sim_dict_at:
  "i < j \<Longrightarrow> j \<le> 10 \<Longrightarrow> sim_dict j f (Suc i) = Some (f i)"
  by (simp add: sim_dict_def)

lemma simulate_at:
  assumes "0 \<le> sigma p" and "N p \<le> 10" and "i < nat (N p)"
  shows "\<exists>cd ed rd g'. simulate p g = Inr ((cd, ed, rd), g') \<and>
           cd (i + 1) = Some (sim_careers p g i) \<and>
           ed (i + 1) = Some (sim_EVs p g i) \<and>
           rd (i + 1) = Some (sim_RVs p g i)"
proof -
  have "nat (N p) \<le> 10" using assms(2) by simp
  with assms show ?thesis
    by (simp add: simulate_ok sim_dict_at del: upt_Suc)
qed

lemma sim_lengths [simp]:
  "length (sim_careers p g i) = nat (K p + 1)"
  "length (sim_EVs p g i) = nat (K p + 1)"
  "length (sim_RVs p g i) = nat (K p + 1)"
  by (simp_all add: sim_careers_def sim_EVs_def sim_RVs_def)

lemma sim_nth:
  assumes "n < nat (K p + 1)"
  shows "sim_careers p g i ! n = fst (career_row p (trial_state p g i n) i)"
    and "sim_EVs p g i ! n = fst (snd (career_row p (trial_state p g i n) i))"
    and "sim_RVs p g i ! n = snd (snd (career_row p (trial_state p g i n) i))"
  using assms by (simp_all add: sim_careers_def sim_EVs_def sim_RVs_def del: upt_Suc)

text \<open>
  Claim C2 says that \<open>simulate\<close> records exactly \<open>K\<close> trials for every type. The
  loop \<open>n = 0; while n <= par.K\<close> runs once more: for \<open>sigma \<ge> 0\<close> and
  \<open>N \<le> 10\<close>, each of the three lists of every type \<open>t\<close> in \<open>1..N\<close> has
  \<open>K + 1\<close> elements when \<open>K \<ge> 0\<close> (and none when \<open>K < 0\<close>).
\<close>

theorem simulate_records_per_type:
  assumes "0 \<le> sigma p" and "N p \<le> 10" and "1 \<le> t" and "t \<le> nat (N p)"
  shows "\<exists>cd ed rd g' cl el rl.
           simulate p g = Inr ((cd, ed, rd), g') \<and>
           cd t = Some cl \<and> ed t = Some el \<and> rd t = Some rl \<and>
           length cl = nat (K p + 1) \<and> length el = nat (K p + 1) \<and>
           length rl = nat (K p + 1)"
proof -
  have "t - 1 < nat (N p)" and "t - 1 + 1 = t"
    using assms(3,4) by simp_all
  with simulate_at [OF assms(1,2), of "t - 1" g] show ?thesis
    by auto
qed

theorem simulate_records_per_type_witness:
  "\<exists>cd ed rd g' cl el rl.
     simulate default_par zero_rng = Inr ((cd, ed, rd), g') \<and>
     cd 1 = Some cl \<and> ed 1 = Some el \<and> rd 1 = Some rl \<and>
     length cl = 10001 \<and> length el = 10001 \<and> length rl = 10001"
  using simulate_records_per_type [of default_par 1 zero_rng]
  by (simp add: default_par_def)

text \<open>
  Claim C3. For the type with index \<open>i\<close> and the trial \<open>n\<close>, the realized utility
  that \<open>simulate\<close> records is the number of the recorded track, 1, 2 or 3, plus one
  noise term. The noise term is a draw of size 1 from the generator as the three
  estimators of that trial and the draws for the types before \<open>i\<close> leave it; it is
  \<open>sigma\<close> times the variate at a position of the stream that is given in closed
  form. The expected utility is no part of the sum.
\<close>

theorem simulate_realized_utility:
  assumes "0 \<le> sigma p" and "N p \<le> 10" and "i < nat (N p)" and "n < nat (K p + 1)"
  shows "\<exists>cd ed rd g' cl rl E1 g1 E2 g2 E3 g3 noise g4.
           simulate p g = Inr ((cd, ed, rd), g') \<and>
           cd (i + 1) = Some cl \<and> rd (i + 1) = Some rl \<and>
           n < length cl \<and> n < length rl \<and>
           v1 p (trial_state p g i n) = Inr (E1, g1) \<and>
           v2 p g1 = Inr (E2, g2) \<and>
           v3 p g2 = Inr (E3, g3) \<and>
           normal 0 (sigma p) 1 (advance i g3) = Inr ([noise], g4) \<and>
           noise = sigma p * g ((i * nat (K p + 1) + n) * draws_per_career p
                                 + 3 * tri (nat (N p)) + i) \<and>
           (cl ! n = 1 \<or> cl ! n = 2 \<or> cl ! n = 3) \<and>
           rl ! n = real_of_int (cl ! n) + noise"
proof -
  let ?gs = "trial_state p g i n" and ?T = "tri (nat (N p))"
  obtain t ev where fc: "first_choice (EU_at 1 (sigma p) (advance (tri i) ?gs) (i + 1))
      (EU_at 2 (sigma p) (advance (?T + tri i) ?gs) (i + 1))
      (EU_at 3 (sigma p) (advance (2 * ?T + tri i) ?gs) (i + 1)) = (t, ev)"
    by fastforce
  from first_choice_cases [OF fc] have t: "t = 1 \<or> t = 2 \<or> t = 3"
    by auto
  have row: "career_row p ?gs i = (t, ev, real_of_int t + sigma p * ?gs (3 * ?T + i))"
    using fc by (simp add: career_row_def Let_def)
  have pos: "?gs (3 * ?T + i) =
      g ((i * nat (K p + 1) + n) * draws_per_career p + 3 * ?T + i)"
    by (simp add: trial_state_def advance_apply ac_simps)
  have vs: "v1 p ?gs = Inr (map (\<lambda>j. EU_at 1 (sigma p) (advance (tri j) ?gs) (j + 1)) [0..<nat (N p)], advance ?T ?gs)"
    "v2 p (advance ?T ?gs) = Inr (map (\<lambda>j. EU_at 2 (sigma p) (advance (tri j) (advance ?T ?gs)) (j + 1)) [0..<nat (N p)], advance ?T (advance ?T ?gs))"
    "v3 p (advance ?T (advance ?T ?gs)) = Inr (map (\<lambda>j. EU_at 3 (sigma p) (advance (tri j) (advance ?T (advance ?T ?gs))) (j + 1)) [0..<nat (N p)], advance ?T (advance ?T (advance ?T ?gs)))"
    using assms(1) by (rule v1_ok v2_ok v3_ok)+
  have nz: "normal 0 (sigma p) 1 (advance i (advance ?T (advance ?T (advance ?T ?gs)))) =
      Inr ([sigma p * ?gs (3 * ?T + i)], advance 1 (advance i (advance ?T (advance ?T (advance ?T ?gs)))))"
  proof -
    have "advance i (advance ?T (advance ?T (advance ?T ?gs))) = advance (3 * ?T + i) ?gs"
      by (simp only: advance_advance) (rule advance_eq, simp)
    then show ?thesis
      using assms(1) by (simp add: normal_ok advance_apply)
  qed
  from simulate_at [OF assms(1-3), of g] obtain cd ed rd g' where
    s: "simulate p g = Inr ((cd, ed, rd), g')" "cd (i + 1) = Some (sim_careers p g i)"
       "rd (i + 1) = Some (sim_RVs p g i)"
    by blast
  show ?thesis
    apply (intro exI conjI)
               apply (rule s(1))
              apply (rule s(2))
             apply (rule s(3))
            apply (simp add: assms(4))
           apply (simp add: assms(4))
          apply (rule vs(1))
         apply (rule vs(2))
        apply (rule vs(3))
       apply (rule nz)
      apply (simp only: pos)
    using t assms(4) apply (simp add: sim_nth row)
    using assms(4) apply (simp add: sim_nth row)
    done
qed

theorem simulate_realized_utility_witness:
  "\<exists>cd ed rd g' cl rl E1 g1 E2 g2 E3 g3 noise g4.
           simulate default_par zero_rng = Inr ((cd, ed, rd), g') \<and>
           cd 3 = Some cl \<and> rd 3 = Some rl \<and>
           7 < length cl \<and> 7 < length rl \<and>
           v1 default_par (trial_state default_par zero_rng 2 7) = Inr (E1, g1) \<and>
           v2 default_par g1 = Inr (E2, g2) \<and>
           v3 default_par g2 = Inr (E3, g3) \<and>
           normal 0 2 1 (advance 2 g3) = Inr ([noise], g4) \<and>
           noise = 0 \<and>
           (cl ! 7 = 1 \<or> cl ! 7 = 2 \<or> cl ! 7 = 3) \<and>
           rl ! 7 = real_of_int (cl ! 7) + noise"
  using simulate_realized_utility [of default_par 2 7 zero_rng]
  by (simp add: default_par_def zero_rng_def [THEN fun_cong])

text \<open>
  Claim C5. For the type with index \<open>i\<close> and the trial \<open>n\<close>, let \<open>E1\<close>, \<open>E2\<close>
  and \<open>E3\<close> be what \<open>v1\<close>, \<open>v2\<close> and \<open>v3\<close> return in the state of that trial.
  The recorded track has the greatest of the three estimates of type \<open>i\<close>, every track
  with a smaller number has a strictly smaller estimate (so among equal greatest
  estimates the lowest track is taken), and the recorded expected utility is the
  estimate of the recorded track.
\<close>

theorem simulate_first_choice_argmax:
  assumes "0 \<le> sigma p" and "N p \<le> 10" and "i < nat (N p)" and "n < nat (K p + 1)"
  shows "\<exists>cd ed rd g' cl el E1 g1 E2 g2 E3 g3.
           simulate p g = Inr ((cd, ed, rd), g') \<and>
           cd (i + 1) = Some cl \<and> ed (i + 1) = Some el \<and>
           n < length cl \<and> n < length el \<and>
           v1 p (trial_state p g i n) = Inr (E1, g1) \<and>
           v2 p g1 = Inr (E2, g2) \<and>
           v3 p g2 = Inr (E3, g3) \<and>
           i < length E1 \<and> i < length E2 \<and> i < length E3 \<and>
           ((cl ! n = 1 \<and> el ! n = E1 ! i \<and> E2 ! i \<le> E1 ! i \<and> E3 ! i \<le> E1 ! i) \<or>
            (cl ! n = 2 \<and> el ! n = E2 ! i \<and> E1 ! i < E2 ! i \<and> E3 ! i \<le> E2 ! i) \<or>
            (cl ! n = 3 \<and> el ! n = E3 ! i \<and> E1 ! i < E3 ! i \<and> E2 ! i < E3 ! i))"
proof -
  let ?gs = "trial_state p g i n" and ?T = "tri (nat (N p))"
  let ?E1 = "map (\<lambda>j. EU_at 1 (sigma p) (advance (tri j) ?gs) (j + 1)) [0..<nat (N p)]"
  let ?E2 = "map (\<lambda>j. EU_at 2 (sigma p) (advance (tri j) (advance ?T ?gs)) (j + 1)) [0..<nat (N p)]"
  let ?E3 = "map (\<lambda>j. EU_at 3 (sigma p) (advance (tri j) (advance ?T (advance ?T ?gs))) (j + 1))
               [0..<nat (N p)]"
  have vs: "v1 p ?gs = Inr (?E1, advance ?T ?gs)"
    "v2 p (advance ?T ?gs) = Inr (?E2, advance ?T (advance ?T ?gs))"
    "v3 p (advance ?T (advance ?T ?gs)) = Inr (?E3, advance ?T (advance ?T (advance ?T ?gs)))"
    using assms(1) by (rule v1_ok v2_ok v3_ok)+
  have e: "?E1 ! i = EU_at 1 (sigma p) (advance (tri i) ?gs) (i + 1)"
    "?E2 ! i = EU_at 2 (sigma p) (advance (?T + tri i) ?gs) (i + 1)"
    "?E3 ! i = EU_at 3 (sigma p) (advance (2 * ?T + tri i) ?gs) (i + 1)"
    using assms(3) by (simp_all add: mult_2 add.assoc del: upt_Suc)
  obtain t ev where fc: "first_choice (?E1 ! i) (?E2 ! i) (?E3 ! i) = (t, ev)"
    by fastforce
  have row: "fst (career_row p ?gs i) = t" "fst (snd (career_row p ?gs i)) = ev"
    using fc unfolding e by (simp_all add: career_row_def Let_def)
  from simulate_at [OF assms(1-3), of g] obtain cd ed rd g' where
    s: "simulate p g = Inr ((cd, ed, rd), g')" "cd (i + 1) = Some (sim_careers p g i)"
       "ed (i + 1) = Some (sim_EVs p g i)"
    by blast
  have c: "sim_careers p g i ! n = t" "sim_EVs p g i ! n = ev"
    using assms(4) by (simp_all add: sim_nth row)
  show ?thesis
    apply (intro exI conjI)
               apply (rule s(1))
              apply (rule s(2))
             apply (rule s(3))
            apply (simp add: assms(4))
           apply (simp add: assms(4))
          apply (rule vs(1))
         apply (rule vs(2))
        apply (rule vs(3))
       apply (simp add: assms(3))
      apply (simp add: assms(3))
     apply (simp add: assms(3))
    unfolding c
    apply (rule first_choice_cases [OF fc])
    done
qed

theorem simulate_first_choice_argmax_witness:
  "\<exists>cd ed rd g' cl el E1 g1 E2 g2 E3 g3.
           simulate default_par zero_rng = Inr ((cd, ed, rd), g') \<and>
           cd 3 = Some cl \<and> ed 3 = Some el \<and>
           7 < length cl \<and> 7 < length el \<and>
           v1 default_par (trial_state default_par zero_rng 2 7) = Inr (E1, g1) \<and>
           v2 default_par g1 = Inr (E2, g2) \<and>
           v3 default_par g2 = Inr (E3, g3) \<and>
           2 < length E1 \<and> 2 < length E2 \<and> 2 < length E3 \<and>
           ((cl ! 7 = 1 \<and> el ! 7 = E1 ! 2 \<and> E2 ! 2 \<le> E1 ! 2 \<and> E3 ! 2 \<le> E1 ! 2) \<or>
            (cl ! 7 = 2 \<and> el ! 7 = E2 ! 2 \<and> E1 ! 2 < E2 ! 2 \<and> E3 ! 2 \<le> E2 ! 2) \<or>
            (cl ! 7 = 3 \<and> el ! 7 = E3 ! 2 \<and> E1 ! 2 < E3 ! 2 \<and> E2 ! 2 < E3 ! 2))"
  using simulate_first_choice_argmax [of default_par 2 7 zero_rng]
  by (simp add: default_par_def)

subsection \<open>The loops of \<open>career_alt\<close>\<close>

lemma get2_ok: "d k = Some l \<Longrightarrow> n < length l \<Longrightarrow> get2 d k n = Inr (l ! n)"
  by (simp add: get2_def getitem_def)

lemma alt_branch_ok:
  assumes "0 \<le> sigma p" and "get2 RVdict (i + 1) n = Inr rv" and "alt_has (i + 1) st"
  shows "alt_branch p RVdict i n t0 ta (Inr ea) tb (Inr eb) (st, g) =
     (case alt_row p rv t0 ta ea tb eb g of (row, g') \<Rightarrow> Inr (alt_put (i + 1) [row] st, g'))"
proof -
  obtain sw cda eda rda where st: "st = (sw, cda, eda, rda)"
    by (cases st) auto
  from assms(3) obtain a b d e where
    k: "sw (Suc i) = Some a" "cda (Suc i) = Some b" "eda (Suc i) = Some d" "rda (Suc i) = Some e"
    by (auto simp: st alt_has_def)
  show ?thesis
    using assms(1,2) k
    by (simp add: st alt_branch_def alt_row_def alt_put_def Let_def dict_append_def normal_ok
        getitem_def advance_apply)
qed

lemma career_alt_step_ok:
  assumes "0 \<le> sigma p" and "i < nat (N p)"
    and "careerdict (i + 1) = Some cl" and "RVdict (i + 1) = Some rl"
    and "n < length cl" and "n < length rl" and "alt_has (i + 1) st"
  shows "career_alt_step p careerdict RVdict i n (st, g) =
     (case alt_trial p i (cl ! n) (rl ! n) g of (row, g') \<Rightarrow> Inr (alt_put (i + 1) [row] st, g'))"
proof -
  let ?T = "tri (nat (N p))" and ?s = "sigma p"
  let ?E1 = "map (\<lambda>j. EU_at 1 ?s (advance (tri j) g) (j + 1)) [0..<nat (N p)]"
  let ?E2 = "map (\<lambda>j. EU_at 2 ?s (advance (?T + tri j) g) (j + 1)) [0..<nat (N p)]"
  let ?E3 = "map (\<lambda>j. EU_at 3 ?s (advance (2 * ?T + tri j) g) (j + 1)) [0..<nat (N p)]"
  let ?g3 = "advance (3 * ?T) g"
  have e2: "?T + ?T = 2 * ?T" and e3: "2 * ?T + ?T = 3 * ?T"
    by simp_all
  have v1: "v1 p (snd (st, g)) = Inr (?E1, advance ?T g)"
    using assms(1) by (simp add: v1_ok del: upt_Suc)
  have v2: "v2 p (advance ?T g) = Inr (?E2, advance (2 * ?T) g)"
    using assms(1) by (simp add: v2_ok e2 del: upt_Suc)
  have v3: "v3 p (advance (2 * ?T) g) = Inr (?E3, ?g3)"
    using assms(1) by (simp add: v3_ok e3 del: upt_Suc)
  have rv: "get2 RVdict (i + 1) n = Inr (rl ! n)"
    using assms(4,6) by (rule get2_ok)
  have t: "get2 careerdict (i + 1) n = Inr (cl ! n)"
    using assms(3,5) by (rule get2_ok)
  have g: "getitem ?E1 i = Inr (EU_at 1 ?s (advance (tri i) g) (i + 1))"
    "getitem ?E2 i = Inr (EU_at 2 ?s (advance (?T + tri i) g) (i + 1))"
    "getitem ?E3 i = Inr (EU_at 3 ?s (advance (2 * ?T + tri i) g) (i + 1))"
    using assms(2) by (simp_all add: getitem_def del: upt_Suc)
  have "career_alt_step p careerdict RVdict i n (st, g) =
      (if cl ! n = 1 then
         alt_branch p RVdict i n 1 2 (getitem ?E2 i) 3 (getitem ?E3 i) (st, ?g3)
       else if cl ! n = 2 then
         alt_branch p RVdict i n 2 1 (getitem ?E1 i) 3 (getitem ?E3 i) (st, ?g3)
       else
         alt_branch p RVdict i n 3 1 (getitem ?E1 i) 2 (getitem ?E2 i) (st, ?g3))"
    by (simp only: career_alt_step_def v1 v2 v3 t bind_err_Inr prod.case fst_conv)
  also have "\<dots> = (case alt_trial p i (cl ! n) (rl ! n) g of
      (row, g') \<Rightarrow> Inr (alt_put (i + 1) [row] st, g'))"
  proof (cases "cl ! n = 1")
    case True
    then show ?thesis
      by (simp only: g alt_branch_ok [OF assms(1) rv assms(7)] alt_trial_def Let_def)
        (simp only: refl if_True)
  next
    case False
    show ?thesis
    proof (cases "cl ! n = 2")
      case True
      with False show ?thesis
        by (simp only: g alt_branch_ok [OF assms(1) rv assms(7)] alt_trial_def Let_def)
          (simp only: refl if_True if_False)
    next
      case n2: False
      with False show ?thesis
        by (simp only: g alt_branch_ok [OF assms(1) rv assms(7)] alt_trial_def Let_def)
          (simp only: if_False)
    qed
  qed
  finally show ?thesis .
qed

lemma alt_has_put: "alt_has k st \<Longrightarrow> alt_has k (alt_put k rows st)"
  by (cases st) (simp add: alt_has_def alt_put_def)

lemma alt_put_Nil: "alt_has k st \<Longrightarrow> alt_put k [] st = st"
  by (cases st) (auto simp: alt_has_def alt_put_def map_upd_triv)

lemma alt_put_Cons: "alt_put k rows (alt_put k [row] st) = alt_put k (row # rows) st"
  by (cases st) (simp add: alt_put_def)

lemma career_alt_inner_ok:
  assumes "0 \<le> sigma p" and "i < nat (N p)"
    and "careerdict (i + 1) = Some cl" and "RVdict (i + 1) = Some rl"
    and "\<forall>n \<in> set ns. n < length cl \<and> n < length rl" and "alt_has (i + 1) st"
  shows "career_alt_inner p careerdict RVdict i ns (st, g) =
     (case alt_rows p i cl rl ns g of (rows, g') \<Rightarrow> Inr (alt_put (i + 1) rows st, g'))"
  using assms(5,6)
proof (induction ns arbitrary: st g)
  case Nil
  then show ?case by (simp add: alt_put_Nil)
next
  case (Cons n ns)
  obtain row g' where tr: "alt_trial p i (cl ! n) (rl ! n) g = (row, g')"
    by fastforce
  obtain rows g'' where rs: "alt_rows p i cl rl ns g' = (rows, g'')"
    by fastforce
  have n: "n < length cl" "n < length rl"
    using Cons.prems(1) by simp_all
  have step: "career_alt_step p careerdict RVdict i n (st, g) = Inr (alt_put (i + 1) [row] st, g')"
    using career_alt_step_ok [where careerdict = careerdict and RVdict = RVdict and i = i
        and p = p and cl = cl and rl = rl and n = n and st = st and g = g,
        OF assms(1-4) n Cons.prems(2)]
    by (simp only: tr prod.case)
  have "career_alt_inner p careerdict RVdict i ns (alt_put (i + 1) [row] st, g') =
      Inr (alt_put (i + 1) rows (alt_put (i + 1) [row] st), g'')"
    using Cons.IH [of "alt_put (i + 1) [row] st" g'] Cons.prems alt_has_put [OF Cons.prems(2)]
    by (simp add: rs)
  then show ?case
    by (simp only: career_alt_inner.simps step bind_err_Inr alt_rows.simps tr rs prod.case
        alt_put_Cons)
qed

lemma alt_dicts_has: "j < 10 \<Longrightarrow> alt_has (j + 1) (alt_dicts R j)"
  by (simp add: alt_has_def alt_dicts_def sim_dict_def)

lemma sim_dict_put:
  "j < 10 \<Longrightarrow> (sim_dict j f)(j + 1 \<mapsto> the (sim_dict j f (j + 1)) @ f j) = sim_dict (Suc j) f"
  by (rule ext) (auto simp: sim_dict_def)

lemma alt_dicts_put: "j < 10 \<Longrightarrow> alt_put (j + 1) (R j) (alt_dicts R j) = alt_dicts R (Suc j)"
  unfolding alt_dicts_def alt_put_def prod.case
  by (simp only: sim_dict_put [of j "\<lambda>i. map fst (R i)"]
      sim_dict_put [of j "\<lambda>i. map (fst \<circ> snd) (R i)"]
      sim_dict_put [of j "\<lambda>i. map (fst \<circ> snd \<circ> snd) (R i)"]
      sim_dict_put [of j "\<lambda>i. map (snd \<circ> snd \<circ> snd) (R i)"])

lemma alt_input_ok_iff:
  "alt_input_ok p careerdict RVdict \<longleftrightarrow>
     (\<forall>i < nat (N p). \<exists>cl rl. careerdict (i + 1) = Some cl \<and> RVdict (i + 1) = Some rl \<and>
        nat (K p) \<le> length cl \<and> nat (K p) \<le> length rl)"
proof -
  have "(case careerdict (i + 1) of
           None \<Rightarrow> False
         | Some cl \<Rightarrow>
             (case RVdict (i + 1) of
                None \<Rightarrow> False
              | Some rl \<Rightarrow> nat (K p) \<le> length cl \<and> nat (K p) \<le> length rl)) \<longleftrightarrow>
        (\<exists>cl rl. careerdict (i + 1) = Some cl \<and> RVdict (i + 1) = Some rl \<and>
           nat (K p) \<le> length cl \<and> nat (K p) \<le> length rl)" for i
    by (cases "careerdict (i + 1)"; cases "RVdict (i + 1)") simp_all
  then have "alt_input_ok p careerdict RVdict \<longleftrightarrow>
      (\<forall>i \<in> set [0..<nat (N p)]. \<exists>cl rl. careerdict (i + 1) = Some cl \<and>
         RVdict (i + 1) = Some rl \<and> nat (K p) \<le> length cl \<and> nat (K p) \<le> length rl)"
    by (simp only: alt_input_ok_def)
  also have "\<dots> \<longleftrightarrow>
      (\<forall>i < nat (N p). \<exists>cl rl. careerdict (i + 1) = Some cl \<and>
         RVdict (i + 1) = Some rl \<and> nat (K p) \<le> length cl \<and> nat (K p) \<le> length rl)"
    by auto
  finally show ?thesis .
qed

lemma career_alt_outer_ok:
  assumes "0 \<le> sigma p" and "nat (N p) \<le> 10" and "alt_input_ok p careerdict RVdict"
    and "j \<le> nat (N p)"
  shows "career_alt_outer p careerdict RVdict [j..<nat (N p)]
           (alt_dicts (alt_recs p careerdict RVdict g) j, alt_gen p careerdict RVdict g j) =
         Inr (alt_dicts (alt_recs p careerdict RVdict g) (nat (N p)),
              alt_gen p careerdict RVdict g (nat (N p)))"
  using assms(4)
proof (induction "nat (N p) - j" arbitrary: j)
  case 0
  then show ?case by simp
next
  case (Suc x)
  then have j: "j < nat (N p)" "j < 10" using assms(2) by simp_all
  from assms(3) j(1) obtain cl rl where
    io: "careerdict (j + 1) = Some cl" "RVdict (j + 1) = Some rl"
        "nat (K p) \<le> length cl" "nat (K p) \<le> length rl"
    unfolding alt_input_ok_iff by blast
  let ?R = "alt_recs p careerdict RVdict g" and ?G = "alt_gen p careerdict RVdict g"
  have rng: "\<forall>n \<in> set [0..<nat (K p)]. n < length cl \<and> n < length rl"
    using io(3,4) by simp
  have rows: "alt_rows p j cl rl [0..<nat (K p)] (?G j) = (?R j, ?G (Suc j))"
    using io(1,2) by (simp add: alt_recs_def del: upt_Suc)
  have inner: "career_alt_inner p careerdict RVdict j [0..<nat (K p)] (alt_dicts ?R j, ?G j) =
      Inr (alt_dicts ?R (Suc j), ?G (Suc j))"
    using career_alt_inner_ok [where careerdict = careerdict and RVdict = RVdict and i = j
        and p = p and cl = cl and rl = rl and ns = "[0..<nat (K p)]"
        and st = "alt_dicts ?R j" and g = "?G j",
        OF assms(1) j(1) io(1,2) rng alt_dicts_has [OF j(2)]]
    by (simp only: rows prod.case alt_dicts_put [OF j(2)])
  have l: "[j..<nat (N p)] = j # [Suc j..<nat (N p)]"
    using j by (simp add: upt_conv_Cons)
  have "x = nat (N p) - Suc j" and "Suc j \<le> nat (N p)"
    using Suc.hyps(2) j by simp_all
  from Suc.hyps(1) [OF this] show ?case
    by (simp only: l career_alt_outer.simps inner bind_err_Inr)
qed

lemma alt_dicts_0: "alt_dicts R 0 = (dict10, dict10, dict10, dict10)"
  by (simp add: alt_dicts_def dict10_eq [symmetric])

lemma career_alt_ok:
  assumes "0 \<le> sigma p" and "N p \<le> 10" and "alt_input_ok p careerdict RVdict"
  shows "career_alt p careerdict RVdict g =
         Inr (alt_dicts (alt_recs p careerdict RVdict g) (nat (N p)),
              alt_gen p careerdict RVdict g (nat (N p)))"
proof -
  have "nat (N p) \<le> 10" using assms(2) by simp
  from career_alt_outer_ok [OF assms(1) this assms(3), of 0 g] show ?thesis
    by (simp add: career_alt_def alt_dicts_0 del: upt_Suc)
qed

subsection \<open>The records of \<open>career_alt\<close>\<close>

lemma alt_trial_props:
  assumes "t = 1 \<or> t = 2 \<or> t = 3"
    and "alt_trial p i t rv gt = ((s, t', ev', rv'), g')"
    and "e1 = EU_at 1 (sigma p) (advance (tri i) gt) (i + 1)"
    and "e2 = EU_at 2 (sigma p) (advance (tri (nat (N p)) + tri i) gt) (i + 1)"
    and "e3 = EU_at 3 (sigma p) (advance (2 * tri (nat (N p)) + tri i) gt) (i + 1)"
  shows "(s = 0 \<or> s = 1) \<and> (t' = 1 \<or> t' = 2 \<or> t' = 3) \<and>
         (s = 0 \<longleftrightarrow> t' = t) \<and>
         (s = 1 \<longleftrightarrow> (t \<noteq> 1 \<and> rv < e1 - c p) \<or> (t \<noteq> 2 \<and> rv < e2 - c p) \<or>
                    (t \<noteq> 3 \<and> rv < e3 - c p)) \<and>
         (s = 1 \<longrightarrow> rv' = real_of_int t' - c p + sigma p * gt (3 * tri (nat (N p)))) \<and>
         (s = 0 \<longrightarrow> rv' = rv)"
  using assms(1,2) unfolding assms(3-5)
  by (auto simp: alt_trial_def alt_row_def np_max3_def Let_def max_def advance_apply
      split: if_splits)

lemma alt_trial_adv: "\<exists>q. snd (alt_trial p i t rv g) = advance q g"
proof -
  have "snd (alt_trial p i t rv g) = advance (3 * tri (nat (N p))) g \<or>
      snd (alt_trial p i t rv g) = advance (3 * tri (nat (N p)) + 1) g"
    by (simp add: alt_trial_def alt_row_def Let_def)
  then show ?thesis by blast
qed

lemma alt_rows_Cons:
  "alt_rows p i cl rl (n # ns) g =
     (fst (alt_trial p i (cl ! n) (rl ! n) g) #
        fst (alt_rows p i cl rl ns (snd (alt_trial p i (cl ! n) (rl ! n) g))),
      snd (alt_rows p i cl rl ns (snd (alt_trial p i (cl ! n) (rl ! n) g))))"
  by (simp split: prod.splits)

lemma alt_rows_length [simp]: "length (fst (alt_rows p i cl rl ns g)) = length ns"
  by (induction ns arbitrary: g) (simp_all add: alt_rows_Cons del: alt_rows.simps(2))

lemma alt_rows_adv: "\<exists>q. snd (alt_rows p i cl rl ns g) = advance q g"
proof (induction ns arbitrary: g)
  case Nil
  have "snd (alt_rows p i cl rl [] g) = advance 0 g" by simp
  then show ?case by blast
next
  case (Cons n ns)
  obtain q where q: "snd (alt_trial p i (cl ! n) (rl ! n) g) = advance q g"
    using alt_trial_adv by blast
  obtain q' where "snd (alt_rows p i cl rl ns (advance q g)) = advance q' (advance q g)"
    using Cons.IH by blast
  then have "snd (alt_rows p i cl rl (n # ns) g) = advance (q + q') g"
    using q by (simp add: alt_rows_Cons del: alt_rows.simps(2))
  then show ?case by blast
qed

lemma alt_rows_nth:
  "k < length ns \<Longrightarrow>
     \<exists>q. fst (alt_rows p i cl rl ns g) ! k =
           fst (alt_trial p i (cl ! (ns ! k)) (rl ! (ns ! k)) (advance q g))"
proof (induction ns arbitrary: g k)
  case Nil
  then show ?case by simp
next
  case (Cons n ns)
  show ?case
  proof (cases k)
    case 0
    have "fst (alt_rows p i cl rl (n # ns) g) ! 0 =
        fst (alt_trial p i (cl ! n) (rl ! n) (advance 0 g))"
      by (simp add: alt_rows_Cons del: alt_rows.simps(2))
    with 0 show ?thesis by (metis nth_Cons_0)
  next
    case (Suc k')
    obtain q where q: "snd (alt_trial p i (cl ! n) (rl ! n) g) = advance q g"
      using alt_trial_adv by blast
    from Suc Cons.prems have "k' < length ns" by simp
    from Cons.IH [OF this, of "advance q g"] obtain q' where
      "fst (alt_rows p i cl rl ns (advance q g)) ! k' =
         fst (alt_trial p i (cl ! (ns ! k')) (rl ! (ns ! k')) (advance q' (advance q g)))"
      by blast
    then have "fst (alt_rows p i cl rl (n # ns) g) ! Suc k' =
        fst (alt_trial p i (cl ! ((n # ns) ! Suc k')) (rl ! ((n # ns) ! Suc k')) (advance (q + q') g))"
      using q by (simp add: alt_rows_Cons del: alt_rows.simps(2))
    with Suc show ?thesis by blast
  qed
qed

lemma alt_gen_adv: "\<exists>q. alt_gen p careerdict RVdict g j = advance q g"
proof (induction j)
  case 0
  have "alt_gen p careerdict RVdict g 0 = advance 0 g" by simp
  then show ?case by blast
next
  case (Suc j)
  then obtain q where q: "alt_gen p careerdict RVdict g j = advance q g" by blast
  obtain q' where "snd (alt_rows p j (the (careerdict (j + 1))) (the (RVdict (j + 1)))
      [0..<nat (K p)] (advance q g)) = advance q' (advance q g)"
    using alt_rows_adv by blast
  then have "alt_gen p careerdict RVdict g (Suc j) = advance (q + q') g"
    using q by (simp del: upt_Suc)
  then show ?case by blast
qed

lemma alt_recs_length [simp]: "length (alt_recs p careerdict RVdict g i) = nat (K p)"
  by (simp add: alt_recs_def del: upt_Suc)

lemma alt_recs_nth:
  assumes "n < nat (K p)" and "careerdict (i + 1) = Some cl" and "RVdict (i + 1) = Some rl"
  shows "\<exists>q. alt_recs p careerdict RVdict g i ! n = fst (alt_trial p i (cl ! n) (rl ! n) (advance q g))"
proof -
  obtain q where q: "alt_gen p careerdict RVdict g i = advance q g"
    using alt_gen_adv by blast
  have "n < length [0..<nat (K p)]" using assms(1) by simp
  from alt_rows_nth [OF this, of p i cl rl "advance q g"] obtain q' where
    "fst (alt_rows p i cl rl [0..<nat (K p)] (advance q g)) ! n =
       fst (alt_trial p i (cl ! n) (rl ! n) (advance q' (advance q g)))"
    using assms(1) by (auto simp del: upt_Suc)
  then have "alt_recs p careerdict RVdict g i ! n =
      fst (alt_trial p i (cl ! n) (rl ! n) (advance (q + q') g))"
    using assms(2,3) q by (simp add: alt_recs_def del: upt_Suc)
  then show ?thesis by blast
qed

lemma career_alt_at:
  assumes "0 \<le> sigma p" and "N p \<le> 10" and "alt_input_ok p careerdict RVdict"
    and "i < nat (N p)"
  shows "\<exists>sw cda eda rda g'.
           career_alt p careerdict RVdict g = Inr ((sw, cda, eda, rda), g') \<and>
           sw (i + 1) = Some (map fst (alt_recs p careerdict RVdict g i)) \<and>
           cda (i + 1) = Some (map (fst \<circ> snd) (alt_recs p careerdict RVdict g i)) \<and>
           eda (i + 1) = Some (map (fst \<circ> snd \<circ> snd) (alt_recs p careerdict RVdict g i)) \<and>
           rda (i + 1) = Some (map (snd \<circ> snd \<circ> snd) (alt_recs p careerdict RVdict g i))"
proof -
  have "nat (N p) \<le> 10" using assms(2) by simp
  with assms(4) show ?thesis
    by (simp add: career_alt_ok [OF assms(1-3)] alt_dicts_def sim_dict_at del: upt_Suc)
qed

subsection \<open>The switch decision\<close>

lemma alt_record:
  assumes "0 \<le> sigma p" and "N p \<le> 10" and "alt_input_ok p careerdict RVdict"
    and "i < nat (N p)" and "n < nat (K p)"
    and "careerdict (i + 1) = Some cl" and "RVdict (i + 1) = Some rl"
  obtains sw cda eda rda g' q s t' ev' rv' gq sl cl' el' rl' where
    "career_alt p careerdict RVdict g = Inr ((sw, cda, eda, rda), g')"
    and "sw (i + 1) = Some sl" and "n < length sl" and "sl ! n = s"
    and "cda (i + 1) = Some cl'" and "n < length cl'" and "cl' ! n = t'"
    and "eda (i + 1) = Some el'" and "n < length el'" and "el' ! n = ev'"
    and "rda (i + 1) = Some rl'" and "n < length rl'" and "rl' ! n = rv'"
    and "alt_trial p i (cl ! n) (rl ! n) (advance q g) = ((s, t', ev', rv'), gq)"
proof -
  let ?R = "alt_recs p careerdict RVdict g i"
  from career_alt_at [OF assms(1-4), of g] obtain sw cda eda rda g' where
    ca: "career_alt p careerdict RVdict g = Inr ((sw, cda, eda, rda), g')"
      "sw (i + 1) = Some (map fst ?R)"
      "cda (i + 1) = Some (map (fst \<circ> snd) ?R)"
      "eda (i + 1) = Some (map (fst \<circ> snd \<circ> snd) ?R)"
      "rda (i + 1) = Some (map (snd \<circ> snd \<circ> snd) ?R)"
    by blast
  from alt_recs_nth [where careerdict = careerdict and RVdict = RVdict and i = i and p = p
      and n = n and cl = cl and rl = rl and g = g, OF assms(5-7)] obtain q where
    q: "?R ! n = fst (alt_trial p i (cl ! n) (rl ! n) (advance q g))"
    by blast
  obtain s t' ev' rv' gq where
    tr: "alt_trial p i (cl ! n) (rl ! n) (advance q g) = ((s, t', ev', rv'), gq)"
    by (metis prod.exhaust)
  have r: "?R ! n = (s, t', ev', rv')"
    using q tr by simp
  have len: "n < length ?R"
    using assms(5) by simp
  show thesis
  proof (rule that [OF ca(1) ca(2) _ _ ca(3) _ _ ca(4) _ _ ca(5) _ _ tr])
    show "n < length (map fst ?R)" "n < length (map (fst \<circ> snd) ?R)"
      "n < length (map (fst \<circ> snd \<circ> snd) ?R)" "n < length (map (snd \<circ> snd \<circ> snd) ?R)"
      using len by simp_all
    show "map fst ?R ! n = s" "map (fst \<circ> snd) ?R ! n = t'"
      "map (fst \<circ> snd \<circ> snd) ?R ! n = ev'" "map (snd \<circ> snd \<circ> snd) ?R ! n = rv'"
      using len r by simp_all
  qed
qed



text \<open>
  Claim C10. Under the same conditions on the arguments, for every type and trial the
  switch indicator that \<open>career_alt\<close> records is 0 or 1; it is 0 if and only if the
  track of the second year is the first choice, and when it is 1 the track of the second
  year differs from the first choice.
\<close>

theorem career_alt_switch_indicator:
  assumes "0 \<le> sigma p" and "N p \<le> 10" and "alt_input_ok p careerdict RVdict"
    and "i < nat (N p)" and "n < nat (K p)"
    and "careerdict (i + 1) = Some cl" and "RVdict (i + 1) = Some rl"
    and "cl ! n = 1 \<or> cl ! n = 2 \<or> cl ! n = 3"
  shows "\<exists>sw cda eda rda g' sl cl'.
           career_alt p careerdict RVdict g = Inr ((sw, cda, eda, rda), g') \<and>
           sw (i + 1) = Some sl \<and> cda (i + 1) = Some cl' \<and>
           n < length sl \<and> n < length cl' \<and>
           (sl ! n = 0 \<or> sl ! n = 1) \<and>
           (sl ! n = 0 \<longleftrightarrow> cl' ! n = cl ! n) \<and>
           (sl ! n = 1 \<longrightarrow> cl' ! n \<noteq> cl ! n)"
proof -
  obtain sw cda eda rda g' q s t' ev' rv' gq sl cl' el' rl'
    where ca: "career_alt p careerdict RVdict g = Inr ((sw, cda, eda, rda), g')"
      and sl: "sw (i + 1) = Some sl" "n < length sl" "sl ! n = s"
      and cl': "cda (i + 1) = Some cl'" "n < length cl'" "cl' ! n = t'"
      and el': "eda (i + 1) = Some el'" "n < length el'" "el' ! n = ev'"
      and rl': "rda (i + 1) = Some rl'" "n < length rl'" "rl' ! n = rv'"
      and tr: "alt_trial p i (cl ! n) (rl ! n) (advance q g) = ((s, t', ev', rv'), gq)"
    by (rule alt_record [where careerdict = careerdict and RVdict = RVdict and g = g,
          OF assms(1-7)])
  note pr = alt_trial_props [OF assms(8) tr refl refl refl]
  show ?thesis
    apply (intro exI conjI)
           apply (rule ca)
          apply (rule sl(1))
         apply (rule cl'(1))
        apply (rule sl(2))
       apply (rule cl'(2))
    unfolding sl(3) cl'(3)
    using pr apply blast
    using pr apply blast
    using pr apply force
    done
qed

theorem career_alt_switch_indicator_witness:
  "alt_input_ok (default_par\<lparr>N := 1, K := 1\<rparr>) [1 \<mapsto> [1]] [1 \<mapsto> [0]] \<and>
   (\<exists>sw cda eda rda g' sl cl'.
      career_alt (default_par\<lparr>N := 1, K := 1\<rparr>) [1 \<mapsto> [1]] [1 \<mapsto> [0]] zero_rng =
        Inr ((sw, cda, eda, rda), g') \<and>
      sw 1 = Some sl \<and> cda 1 = Some cl' \<and>
      0 < length sl \<and> 0 < length cl' \<and>
      (sl ! 0 = 0 \<or> sl ! 0 = 1) \<and>
      (sl ! 0 = 0 \<longleftrightarrow> cl' ! 0 = 1) \<and>
      (sl ! 0 = 1 \<longrightarrow> cl' ! 0 \<noteq> 1))"
  using career_alt_switch_indicator [where p = "default_par\<lparr>N := 1, K := 1\<rparr>"
      and careerdict = "[1 \<mapsto> [1]]" and RVdict = "[1 \<mapsto> [0]]" and i = 0 and n = 0
      and cl = "[1]" and rl = "[0]" and g = zero_rng]
  by (simp add: default_par_def alt_input_ok_def)

subsection \<open>Noise disabled\<close>

lemma EU_at_noiseless: "0 < i \<Longrightarrow> EU_at b 0 g i = b"
  by (simp add: EU_at_def)

lemma first_choice_123: "first_choice 1 2 3 = (3, 3)"
  by (simp add: first_choice_def np_max3_def Let_def)

lemma career_row_noiseless: "sigma p = 0 \<Longrightarrow> career_row p g j = (3, 3, 3)"
  by (simp add: career_row_def Let_def EU_at_noiseless first_choice_123)

lemma map_const_upt: "map (\<lambda>m. x) [0..<r] = replicate r x"
  by (simp add: map_replicate_const)

lemma simulate_noiseless:
  assumes "sigma p = 0" and "N p \<le> 10"
  shows "simulate p g =
         Inr ((sim_dict (nat (N p)) (\<lambda>i. replicate (nat (K p + 1)) 3),
               sim_dict (nat (N p)) (\<lambda>i. replicate (nat (K p + 1)) 3),
               sim_dict (nat (N p)) (\<lambda>i. replicate (nat (K p + 1)) 3)),
              advance (nat (N p) * nat (K p + 1) * draws_per_career p) g)"
proof -
  have "sim_careers p g = (\<lambda>i. replicate (nat (K p + 1)) 3)"
    "sim_EVs p g = (\<lambda>i. replicate (nat (K p + 1)) 3)"
    "sim_RVs p g = (\<lambda>i. replicate (nat (K p + 1)) 3)"
    using assms(1)
    by (simp_all add: fun_eq_iff sim_careers_def sim_EVs_def sim_RVs_def career_row_noiseless
        map_const_upt del: upt_Suc)
  with simulate_ok [of p g] assms show ?thesis
    by simp
qed

lemma alt_trial_noiseless:
  assumes "sigma p = 0" and "c p = 1"
  shows "alt_trial p i 3 3 g = ((0, 3, 3, 3), advance (3 * tri (nat (N p))) g)"
  using assms by (simp add: alt_trial_def alt_row_def Let_def EU_at_noiseless np_max3_def)

lemma alt_rows_noiseless:
  assumes "sigma p = 0" and "c p = 1" and "\<forall>n \<in> set ns. cl ! n = 3 \<and> rl ! n = 3"
  shows "fst (alt_rows p i cl rl ns g) = replicate (length ns) (0, 3, 3, 3)"
  using assms(3)
  by (induction ns arbitrary: g)
     (simp_all add: alt_rows_Cons alt_trial_noiseless [OF assms(1,2)] del: alt_rows.simps(2))

lemma sim_dict_replicate_input:
  assumes "nat (N p) \<le> 10" and "nat (K p) \<le> r"
  shows "alt_input_ok p (sim_dict (nat (N p)) (\<lambda>i. replicate r x))
           (sim_dict (nat (N p)) (\<lambda>i. replicate r y))"
  using assms by (simp add: alt_input_ok_iff sim_dict_def)

lemma career_alt_noiseless:
  assumes "sigma p = 0" and "c p = 1" and "N p \<le> 10" and "nat (K p) \<le> r"
  shows "career_alt p (sim_dict (nat (N p)) (\<lambda>i. replicate r 3))
           (sim_dict (nat (N p)) (\<lambda>i. replicate r 3)) g =
         Inr ((sim_dict (nat (N p)) (\<lambda>i. replicate (nat (K p)) 0),
               sim_dict (nat (N p)) (\<lambda>i. replicate (nat (K p)) 3),
               sim_dict (nat (N p)) (\<lambda>i. replicate (nat (K p)) 3),
               sim_dict (nat (N p)) (\<lambda>i. replicate (nat (K p)) 3)),
              alt_gen p (sim_dict (nat (N p)) (\<lambda>i. replicate r 3))
                (sim_dict (nat (N p)) (\<lambda>i. replicate r 3)) g (nat (N p)))"
proof -
  let ?cd = "sim_dict (nat (N p)) (\<lambda>i. replicate r (3::int))"
  let ?rd = "sim_dict (nat (N p)) (\<lambda>i. replicate r (3::real))"
  let ?R = "alt_recs p ?cd ?rd g"
  have n10: "nat (N p) \<le> 10" using assms(3) by simp
  have R: "?R i = replicate (nat (K p)) (0, 3, 3, 3)" if "i < nat (N p)" for i
  proof -
    have "?cd (i + 1) = Some (replicate r 3)" "?rd (i + 1) = Some (replicate r 3)"
      using that n10 by (simp_all add: sim_dict_def)
    moreover have "\<forall>n \<in> set [0..<nat (K p)]. replicate r (3::int) ! n = 3 \<and>
        replicate r (3::real) ! n = 3"
      using assms(4) by simp
    ultimately show ?thesis
      using alt_rows_noiseless [OF assms(1,2), where ns = "[0..<nat (K p)]"
          and cl = "replicate r 3" and rl = "replicate r 3" and i = i
          and g = "alt_gen p ?cd ?rd g i"]
      by (simp add: alt_recs_def del: upt_Suc)
  qed
  have "alt_dicts ?R (nat (N p)) =
      (sim_dict (nat (N p)) (\<lambda>i. replicate (nat (K p)) 0),
       sim_dict (nat (N p)) (\<lambda>i. replicate (nat (K p)) 3),
       sim_dict (nat (N p)) (\<lambda>i. replicate (nat (K p)) 3),
       sim_dict (nat (N p)) (\<lambda>i. replicate (nat (K p)) 3))"
    unfolding alt_dicts_def prod.inject
    by (intro conjI sim_dict_cong) (simp_all add: R)
  moreover have "0 \<le> sigma p" using assms(1) by simp
  ultimately show ?thesis
    using career_alt_ok [where g = g and careerdict = ?cd and RVdict = ?rd,
        OF _ assms(3) sim_dict_replicate_input [OF n10 assms(4)]]
    by simp
qed

lemma sort_career_step_noiseless:
  assumes "careerdict (i + 1) = Some cl" and "switchdict (i + 1) = Some sl"
    and "n < length cl" and "cl ! n = 3" and "n < length sl" and "sl ! n = 0"
    and "o3 (i + 1) = Some l"
  shows "sort_career_step switchdict careerdict i n (o1, o2, o3) =
         Inr (o1, o2, o3(i + 1 \<mapsto> l @ [0]))"
  using assms by (simp add: sort_career_step_def get2_def getitem_def dict_append_def)

lemma sort_career_inner_noiseless:
  assumes "careerdict (i + 1) = Some cl" and "switchdict (i + 1) = Some sl"
    and "\<forall>n \<in> set ns. n < length cl \<and> cl ! n = 3 \<and> n < length sl \<and> sl ! n = 0"
    and "o3 (i + 1) = Some l"
  shows "sort_career_inner switchdict careerdict i ns (o1, o2, o3) =
         Inr (o1, o2, o3(i + 1 \<mapsto> l @ replicate (length ns) 0))"
  using assms(3,4)
proof (induction ns arbitrary: o3 l)
  case Nil
  then show ?case by (simp add: map_upd_triv)
next
  case (Cons n ns)
  have st: "sort_career_step switchdict careerdict i n (o1, o2, o3) =
      Inr (o1, o2, o3(i + 1 \<mapsto> l @ [0]))"
    using Cons.prems
    by (intro sort_career_step_noiseless [where cl = cl and sl = sl] assms(1,2)) simp_all
  have "sort_career_inner switchdict careerdict i ns (o1, o2, o3(i + 1 \<mapsto> l @ [0])) =
      Inr (o1, o2, (o3(i + 1 \<mapsto> l @ [0]))(i + 1 \<mapsto> (l @ [0]) @ replicate (length ns) 0))"
    using Cons.prems by (intro Cons.IH) simp_all
  then show ?case
    by (auto simp: st fun_eq_iff)
qed

lemma sort_career_outer_noiseless:
  assumes "nat (N p) \<le> 10" and "nat (K p) \<le> r" and "j \<le> nat (N p)"
  shows "sort_career_outer p (sim_dict (nat (N p)) (\<lambda>i. replicate (nat (K p)) 0))
           (sim_dict (nat (N p)) (\<lambda>i. replicate r 3)) [j..<nat (N p)]
           (dict10, dict10, sim_dict j (\<lambda>i. replicate (nat (K p)) 0)) =
         Inr (dict10, dict10, sim_dict (nat (N p)) (\<lambda>i. replicate (nat (K p)) 0))"
  using assms(3)
proof (induction "nat (N p) - j" arbitrary: j)
  case 0
  then show ?case by simp
next
  case (Suc x)
  then have j: "j < nat (N p)" "j < 10" using assms(1) by simp_all
  let ?sw = "sim_dict (nat (N p)) (\<lambda>i. replicate (nat (K p)) (0::int))"
  let ?cd = "sim_dict (nat (N p)) (\<lambda>i. replicate r (3::int))"
  let ?o3 = "sim_dict j (\<lambda>i. replicate (nat (K p)) (0::int))"
  have inner: "sort_career_inner ?sw ?cd j [0..<nat (K p)] (dict10, dict10, ?o3) =
      Inr (dict10, dict10, ?o3(j + 1 \<mapsto> [] @ replicate (length [0..<nat (K p)]) 0))"
    using j assms(1,2)
    by (intro sort_career_inner_noiseless [where cl = "replicate r 3"
          and sl = "replicate (nat (K p)) 0"])
       (simp_all add: sim_dict_def)
  have d: "?o3(j + 1 \<mapsto> [] @ replicate (length [0..<nat (K p)]) 0) =
      sim_dict (Suc j) (\<lambda>i. replicate (nat (K p)) 0)"
    using sim_dict_step [OF j(2), of "\<lambda>i. replicate (nat (K p)) (0::int)"] by simp
  have l: "[j..<nat (N p)] = j # [Suc j..<nat (N p)]"
    using j by (simp add: upt_conv_Cons)
  have "x = nat (N p) - Suc j" and "Suc j \<le> nat (N p)"
    using Suc.hyps(2) j by simp_all
  from Suc.hyps(1) [OF this] show ?case
    by (simp only: l sort_career_outer.simps inner d bind_err_Inr)
qed

lemma sort_career_noiseless:
  assumes "N p \<le> 10" and "nat (K p) \<le> r"
  shows "sort_career p (sim_dict (nat (N p)) (\<lambda>i. replicate (nat (K p)) 0))
           (sim_dict (nat (N p)) (\<lambda>i. replicate r 3)) =
         Inr (dict10, dict10, sim_dict (nat (N p)) (\<lambda>i. replicate (nat (K p)) 0))"
proof -
  have "nat (N p) \<le> 10" using assms(1) by simp
  from sort_career_outer_noiseless [OF this assms(2), of 0] show ?thesis
    by (simp add: sort_career_def dict10_eq [symmetric] del: upt_Suc)
qed

lemma count2_loop_zeros: "count2_loop (replicate k 0) (a, b) = (a + int k, b)"
  by (induction k arbitrary: a) simp_all

lemma count2_zeros: "0 < k \<Longrightarrow> count2 (replicate k 0) = Inr 0"
  by (simp add: count2_def count2_loop_zeros truediv_def)

lemma count2_empty: "count2 [] = Inl ZeroDivisionError"
  by (simp add: count2_def truediv_def)

text \<open>
  Claim C9, as the code has it. With \<open>sigma = 0\<close> and \<open>c = 1\<close> (and \<open>N \<le> 10\<close>),
  for every type \<open>t\<close> in \<open>1..N\<close>: every trial of \<open>simulate\<close> records track 3;
  \<open>career_alt\<close>, run on what \<open>simulate\<close> returns, records the switch indicator 0
  and track 3 in every trial, so no graduate switches; \<open>sort_career\<close> puts the \<open>K\<close>
  indicators of the type in the group of original track 3 and leaves the groups of
  original tracks 1 and 2 empty. The switch rate \<open>count2\<close> of the group of track 3
  is 0 when \<open>K \<ge> 1\<close>; an empty group has no rate, \<open>count2\<close> raises
  \<open>ZeroDivisionError\<close> on it.
\<close>

theorem noiseless_run:
  assumes "sigma p = 0" and "c p = 1" and "N p \<le> 10" and "1 \<le> t" and "t \<le> nat (N p)"
  shows "\<exists>cd ed rd g1 sw cda eda rda g2 o1 o2 o3.
           simulate p g = Inr ((cd, ed, rd), g1) \<and>
           cd t = Some (replicate (nat (K p + 1)) 3) \<and>
           career_alt p cd rd g1 = Inr ((sw, cda, eda, rda), g2) \<and>
           sw t = Some (replicate (nat (K p)) 0) \<and>
           cda t = Some (replicate (nat (K p)) 3) \<and>
           sort_career p sw cd = Inr (o1, o2, o3) \<and>
           o1 t = Some [] \<and> o2 t = Some [] \<and>
           o3 t = Some (replicate (nat (K p)) 0) \<and>
           (0 < K p \<longrightarrow> count2 (replicate (nat (K p)) 0) = Inr 0) \<and>
           count2 [] = Inl ZeroDivisionError"
proof -
  let ?n = "nat (N p)" and ?r = "nat (K p + 1)" and ?k = "nat (K p)"
  have kr: "?k \<le> ?r" by simp
  have t: "1 \<le> t" "t \<le> ?n" "?n \<le> 10" "t \<le> 10"
    using assms(3-5) by simp_all
  have d: "sim_dict ?n (\<lambda>i. l) t = Some l" for l :: "'a list"
    using t by (simp add: sim_dict_def)
  have e: "(dict10 :: int dict) t = Some []"
    using t by (simp add: dict10_eq [of "\<lambda>i. []"] sim_dict_def)
  show ?thesis
    apply (intro exI conjI)
              apply (rule simulate_noiseless [OF assms(1,3)])
             apply (rule d)
            apply (rule career_alt_noiseless [OF assms(1-3) kr])
           apply (rule d)
          apply (rule d)
         apply (rule sort_career_noiseless [OF assms(3) kr])
        apply (rule e)
       apply (rule e)
      apply (rule d)
     apply (simp add: count2_zeros)
    apply (rule count2_empty)
    done
qed

theorem noiseless_run_witness:
  "\<exists>cd ed rd g1 sw cda eda rda g2 o1 o2 o3.
     simulate (default_par\<lparr>N := 1, K := 5, sigma := 0\<rparr>) zero_rng = Inr ((cd, ed, rd), g1) \<and>
     cd 1 = Some [3, 3, 3, 3, 3, 3] \<and>
     career_alt (default_par\<lparr>N := 1, K := 5, sigma := 0\<rparr>) cd rd g1 =
       Inr ((sw, cda, eda, rda), g2) \<and>
     sw 1 = Some [0, 0, 0, 0, 0] \<and>
     cda 1 = Some [3, 3, 3, 3, 3] \<and>
     sort_career (default_par\<lparr>N := 1, K := 5, sigma := 0\<rparr>) sw cd = Inr (o1, o2, o3) \<and>
     o1 1 = Some [] \<and> o2 1 = Some [] \<and>
     o3 1 = Some [0, 0, 0, 0, 0] \<and>
     count2 [0, 0, 0, 0, 0] = Inr 0 \<and>
     count2 [] = Inl ZeroDivisionError"
  using noiseless_run [of "default_par\<lparr>N := 1, K := 5, sigma := 0\<rparr>" 1 zero_rng]
  by (simp add: default_par_def eval_nat_numeral)

lemma sim_dict_1: "sim_dict 1 (\<lambda>i. l) = dict10(1 \<mapsto> l)"
  by (rule ext) (auto simp: sim_dict_def dict10_def, arith)

lemma alt_gen_zero_rng [simp]: "alt_gen p careerdict RVdict zero_rng j = zero_rng"
  using alt_gen_adv [of p careerdict RVdict zero_rng j] by auto

text \<open>
  Claim C9 as stated fails in its last part, the switch rate 0 for all original tracks.
  In the scenario \<open>N = 1\<close>, \<open>K = 5\<close>, \<open>sigma = 0\<close> the runs of \<open>simulate\<close>,
  \<open>career_alt\<close> and \<open>sort_career\<close> end with an empty group for original track 1
  (and 2), and the rate of an empty group is the exception \<open>ZeroDivisionError\<close>.
\<close>

theorem noiseless_switch_rate_counterexample:
  "simulate (default_par\<lparr>N := 1, K := 5, sigma := 0\<rparr>) zero_rng =
     Inr ((dict10(1 \<mapsto> [3, 3, 3, 3, 3, 3]), dict10(1 \<mapsto> [3, 3, 3, 3, 3, 3]),
           dict10(1 \<mapsto> [3, 3, 3, 3, 3, 3])), zero_rng) \<and>
   career_alt (default_par\<lparr>N := 1, K := 5, sigma := 0\<rparr>)
       (dict10(1 \<mapsto> [3, 3, 3, 3, 3, 3])) (dict10(1 \<mapsto> [3, 3, 3, 3, 3, 3])) zero_rng =
     Inr ((dict10(1 \<mapsto> [0, 0, 0, 0, 0]), dict10(1 \<mapsto> [3, 3, 3, 3, 3]),
           dict10(1 \<mapsto> [3, 3, 3, 3, 3]), dict10(1 \<mapsto> [3, 3, 3, 3, 3])), zero_rng) \<and>
   sort_career (default_par\<lparr>N := 1, K := 5, sigma := 0\<rparr>)
       (dict10(1 \<mapsto> [0, 0, 0, 0, 0])) (dict10(1 \<mapsto> [3, 3, 3, 3, 3, 3])) =
     Inr (dict10, dict10, dict10(1 \<mapsto> [0, 0, 0, 0, 0])) \<and>
   (dict10 :: int dict) 1 = Some [] \<and>
   count2 [] = Inl ZeroDivisionError"
proof -
  let ?p = "default_par\<lparr>N := 1, K := 5, sigma := 0\<rparr>"
  have p: "sigma ?p = 0" "c ?p = 1" "N ?p \<le> 10" "nat (N ?p) = 1" "nat (K ?p + 1) = 6"
    "nat (K ?p) = 5" "nat (K ?p) \<le> 6"
    by (simp_all add: default_par_def)
  have r: "replicate 6 x = [x, x, x, x, x, x]" "replicate 5 x = [x, x, x, x, x]" for x :: 'a
    by (simp_all add: eval_nat_numeral)
  have "simulate ?p zero_rng =
     Inr ((dict10(1 \<mapsto> [3, 3, 3, 3, 3, 3]), dict10(1 \<mapsto> [3, 3, 3, 3, 3, 3]),
           dict10(1 \<mapsto> [3, 3, 3, 3, 3, 3])), zero_rng)"
    using simulate_noiseless [OF p(1,3), of zero_rng]
    by (simp only: p sim_dict_1 r advance_zero_rng)
  moreover have "career_alt ?p
       (dict10(1 \<mapsto> [3, 3, 3, 3, 3, 3])) (dict10(1 \<mapsto> [3, 3, 3, 3, 3, 3])) zero_rng =
     Inr ((dict10(1 \<mapsto> [0, 0, 0, 0, 0]), dict10(1 \<mapsto> [3, 3, 3, 3, 3]),
           dict10(1 \<mapsto> [3, 3, 3, 3, 3]), dict10(1 \<mapsto> [3, 3, 3, 3, 3])), zero_rng)"
    using career_alt_noiseless [OF p(1,2,3,7), of zero_rng]
    by (simp only: p sim_dict_1 r alt_gen_zero_rng)
  moreover have "sort_career ?p
       (dict10(1 \<mapsto> [0, 0, 0, 0, 0])) (dict10(1 \<mapsto> [3, 3, 3, 3, 3, 3])) =
     Inr (dict10, dict10, dict10(1 \<mapsto> [0, 0, 0, 0, 0]))"
    using sort_career_noiseless [OF p(3,7)]
    by (simp only: p sim_dict_1 r)
  moreover have "(dict10 :: int dict) 1 = Some []"
    by (simp add: dict10_def)
  ultimately show ?thesis
    using count2_empty by blast
qed

subsection \<open>Parameters that are not checked\<close>

lemma simulate_returns:
  assumes "N p \<le> 10" and "0 \<le> sigma p"
  shows "\<exists>cd ed rd g'. simulate p g = Inr ((cd, ed, rd), g')"
  using simulate_ok [OF assms(2,1), of g] by blast

lemma v1_negative_sigma:
  assumes "sigma p < 0" and "1 \<le> N p"
  shows "v1 p g = Inl ValueError"
proof -
  have "[1..<nat (N p + 1)] = 1 # [Suc 1..<nat (N p + 1)]"
    using assms(2) by (simp add: upt_conv_Cons)
  then show ?thesis
    using assms(1) by (simp add: v1_def normal_neg)
qed

lemma simulate_negative_sigma:
  assumes "sigma p < 0" and "1 \<le> N p" and "0 \<le> K p"
  shows "simulate p g = Inl ValueError"
proof -
  have l: "[0..<nat (N p)] = 0 # [1..<nat (N p)]"
    using assms(2) by (simp add: upt_conv_Cons)
  have "career p g = Inl ValueError"
    by (simp add: career_def v1_negative_sigma [OF assms(1,2)])
  then have "simulate_while p 0 0 ((dict10, dict10, dict10), g) = Inl ValueError"
    using assms(3) by (subst simulate_while.simps) simp
  then show ?thesis
    by (simp add: simulate_def l del: upt_Suc)
qed

lemma simulate_for_no_trials:
  "K p < 0 \<Longrightarrow> simulate_for p is (st, g) = Inr (st, g)"
proof (induction "is")
  case Nil
  then show ?case by simp
next
  case (Cons i "is")
  obtain cd ed rd where st: "st = (cd, ed, rd)"
    by (cases st) auto
  have "simulate_while p i 0 (st, g) = Inr (st, g)"
    unfolding st using Cons.prems by (subst simulate_while.simps) simp
  with Cons show ?case by simp
qed

lemma simulate_no_trials:
  "K p < 0 \<Longrightarrow> simulate p g = Inr ((dict10, dict10, dict10), g)"
  by (simp add: simulate_def simulate_for_no_trials del: upt_Suc)

lemma simulate_no_types:
  "N p \<le> 0 \<Longrightarrow> simulate p g = Inr ((dict10, dict10, dict10), g)"
  by (simp add: simulate_def)

lemma count_empty: "count [] = Inl ZeroDivisionError"
  by (simp add: count_def truediv_def)

text \<open>
  Claim C6, as the code has it. No parameter is validated and no error of the kind
  \<open>InvalidParameter\<close> exists. For every \<open>K\<close> and \<open>v\<close> (also \<open>K \<le> 0\<close> and
  \<open>v\<close> empty), every \<open>N \<le> 10\<close> (also \<open>N \<le> 0\<close>) and every \<open>sigma\<close> that is
  positive or the zero of the model (the integer 0 or the float \<open>+0.0\<close>),
  \<open>simulate\<close> returns its dictionaries. A negative \<open>sigma\<close> is rejected by
  \<open>np.random.normal\<close> with \<open>ValueError\<close> at the first draw of the run, and exactly
  when the run makes a draw: it is rejected when \<open>N \<ge> 1\<close> and \<open>K \<ge> 0\<close>, and when
  \<open>N \<le> 0\<close> or \<open>K < 0\<close> no draw is made and \<open>simulate\<close> returns the empty
  dictionaries and leaves the generator as it was. The shares of an empty list of
  trials are not NaN: \<open>count\<close> raises \<open>ZeroDivisionError\<close>, when it is called on the
  results.
\<close>

theorem parameters_not_validated:
  "(N p \<le> 10 \<and> 0 \<le> sigma p \<longrightarrow> (\<exists>cd ed rd g'. simulate p g = Inr ((cd, ed, rd), g'))) \<and>
   (sigma q < 0 \<and> 1 \<le> N q \<and> 0 \<le> K q \<longrightarrow> simulate q g = Inl ValueError) \<and>
   (sigma r < 0 \<and> N r \<le> 0 \<longrightarrow> simulate r g = Inr ((dict10, dict10, dict10), g)) \<and>
   (sigma t < 0 \<and> K t < 0 \<longrightarrow> simulate t g = Inr ((dict10, dict10, dict10), g)) \<and>
   count [] = Inl ZeroDivisionError"
  using simulate_returns [of p g] simulate_negative_sigma [of q g] simulate_no_types [of r g]
    simulate_no_trials [of t g] count_empty
  by blast

theorem parameters_not_validated_witness:
  "N (default_par\<lparr>N := 1, K := 0, sigma := 0, v := []\<rparr>) \<le> 10 \<and>
   0 \<le> sigma (default_par\<lparr>N := 1, K := 0, sigma := 0, v := []\<rparr>) \<and>
   (\<exists>cd ed rd g'. simulate (default_par\<lparr>N := 1, K := 0, sigma := 0, v := []\<rparr>) zero_rng =
      Inr ((cd, ed, rd), g')) \<and>
   sigma (default_par\<lparr>sigma := - 1\<rparr>) < 0 \<and> 1 \<le> N (default_par\<lparr>sigma := - 1\<rparr>) \<and>
   0 \<le> K (default_par\<lparr>sigma := - 1\<rparr>) \<and>
   simulate (default_par\<lparr>sigma := - 1\<rparr>) zero_rng = Inl ValueError \<and>
   sigma (default_par\<lparr>N := 0, sigma := - 1\<rparr>) < 0 \<and>
   N (default_par\<lparr>N := 0, sigma := - 1\<rparr>) \<le> 0 \<and>
   simulate (default_par\<lparr>N := 0, sigma := - 1\<rparr>) zero_rng =
     Inr ((dict10, dict10, dict10), zero_rng) \<and>
   sigma (default_par\<lparr>K := - 1, sigma := - 1\<rparr>) < 0 \<and>
   K (default_par\<lparr>K := - 1, sigma := - 1\<rparr>) < 0 \<and>
   simulate (default_par\<lparr>K := - 1, sigma := - 1\<rparr>) zero_rng =
     Inr ((dict10, dict10, dict10), zero_rng) \<and>
   count [] = Inl ZeroDivisionError"
  using parameters_not_validated [of "default_par\<lparr>N := 1, K := 0, sigma := 0, v := []\<rparr>"
      zero_rng "default_par\<lparr>sigma := - 1\<rparr>" "default_par\<lparr>N := 0, sigma := - 1\<rparr>"
      "default_par\<lparr>K := - 1, sigma := - 1\<rparr>"]
  by (simp add: default_par_def)

text \<open>
  Claim C6 as stated fails. With \<open>K = 0\<close>, \<open>sigma = 0\<close> and \<open>v\<close> empty (and one
  type) \<open>simulate\<close> returns a record for the type instead of failing, and with
  \<open>N = 0\<close> it returns the empty dictionaries.
\<close>

theorem malformed_parameters_counterexample:
  "simulate (default_par\<lparr>N := 1, K := 0, sigma := 0, v := []\<rparr>) zero_rng =
     Inr ((dict10(1 \<mapsto> [3]), dict10(1 \<mapsto> [3]), dict10(1 \<mapsto> [3])), zero_rng) \<and>
   simulate (default_par\<lparr>N := 0\<rparr>) zero_rng = Inr ((dict10, dict10, dict10), zero_rng)"
proof -
  let ?p = "default_par\<lparr>N := 1, K := 0, sigma := 0, v := []\<rparr>"
  have p: "sigma ?p = 0" "N ?p \<le> 10" "nat (N ?p) = 1" "nat (K ?p + 1) = 1"
    by (simp_all add: default_par_def)
  have r: "replicate 1 x = [x]" for x :: 'a
    by simp
  have "simulate ?p zero_rng =
     Inr ((dict10(1 \<mapsto> [3]), dict10(1 \<mapsto> [3]), dict10(1 \<mapsto> [3])), zero_rng)"
    using simulate_noiseless [OF p(1,2), of zero_rng]
    by (simp only: p sim_dict_1 r advance_zero_rng)
  moreover have "simulate (default_par\<lparr>N := 0\<rparr>) zero_rng = Inr ((dict10, dict10, dict10), zero_rng)"
    by (simp add: simulate_def default_par_def)
  ultimately show ?thesis by blast
qed

subsection \<open>From \<open>simulate\<close> to \<open>career_alt\<close>\<close>

text \<open>
  What \<open>simulate\<close> returns meets the conditions that the statements on \<open>career_alt\<close>
  put on its arguments: a list of \<open>K + 1\<close> elements for every type, and first choices
  that are tracks 1, 2 or 3.
\<close>

lemma simulate_output_ok:
  assumes "0 \<le> sigma p" and "N p \<le> 10" and "simulate p g = Inr ((cd, ed, rd), g')"
  shows "alt_input_ok p cd rd"
    and "i < nat (N p) \<Longrightarrow> n < nat (K p) \<Longrightarrow>
           \<exists>cl. cd (i + 1) = Some cl \<and> (cl ! n = 1 \<or> cl ! n = 2 \<or> cl ! n = 3)"
proof -
  have n10: "nat (N p) \<le> 10" using assms(2) by simp
  have cd: "cd = sim_dict (nat (N p)) (sim_careers p g)"
    and rd: "rd = sim_dict (nat (N p)) (sim_RVs p g)"
    using assms(3) by (simp_all add: simulate_ok [OF assms(1,2)])
  show "alt_input_ok p cd rd"
  proof -
    have "nat (K p) \<le> nat (K p + 1)" by simp
    then show ?thesis
      unfolding alt_input_ok_iff cd rd using n10 by (simp add: sim_dict_at)
  qed
  show "\<exists>cl. cd (i + 1) = Some cl \<and> (cl ! n = 1 \<or> cl ! n = 2 \<or> cl ! n = 3)"
    if "i < nat (N p)" and "n < nat (K p)"
  proof -
    have n: "n < nat (K p + 1)" using that(2) by simp
    obtain t ev where fc: "first_choice
        (EU_at 1 (sigma p) (advance (tri i) (trial_state p g i n)) (i + 1))
        (EU_at 2 (sigma p) (advance (tri (nat (N p)) + tri i) (trial_state p g i n)) (i + 1))
        (EU_at 3 (sigma p) (advance (2 * tri (nat (N p)) + tri i) (trial_state p g i n)) (i + 1))
        = (t, ev)"
      by fastforce
    from first_choice_cases [OF fc] have "t = 1 \<or> t = 2 \<or> t = 3" by auto
    moreover have "sim_careers p g i ! n = t"
      using fc by (simp add: sim_nth(1) [OF n] career_row_def Let_def)
    ultimately show ?thesis
      using that(1) n10 by (simp add: cd sim_dict_at)
  qed
qed

end
